theory Spec2Isabelle
  imports Complex_Main "HOL-Library.Word" "HOL-Library.Sublist"
begin

section \<open>JavaScript values used by the TTS node\<close>

text \<open>
  The node is \<^verbatim>\<open>src/nodes/ExampleNode/ExampleNode.node.ts\<close>. Its host (the n8n
  \<^verbatim>\<open>IExecuteFunctions\<close> object), the KokoroTTS engine, the wavefile library and the
  allocation limit of the JavaScript engine are not part of the repository: they are
  parameters of the model.

  A JavaScript string is a sequence of UTF-16 code units.
\<close>

type_synonym jsstring = "16 word list"

definition js :: "string \<Rightarrow> jsstring" where
  "js s = map of_char s"

text \<open>
  A JavaScript number is a finite value, an infinity or NaN. Finite values are the reals
  they denote. Sampling rates and the pause duration are finite numbers.
\<close>

datatype number = NaN | NegInf | Fin real | PosInf

fun Math_min :: "number \<Rightarrow> number \<Rightarrow> number" where
  "Math_min NaN _ = NaN"
| "Math_min _ NaN = NaN"
| "Math_min NegInf _ = NegInf"
| "Math_min _ NegInf = NegInf"
| "Math_min PosInf y = y"
| "Math_min x PosInf = x"
| "Math_min (Fin a) (Fin b) = Fin (min a b)"

fun Math_max :: "number \<Rightarrow> number \<Rightarrow> number" where
  "Math_max NaN _ = NaN"
| "Math_max _ NaN = NaN"
| "Math_max PosInf _ = PosInf"
| "Math_max _ PosInf = PosInf"
| "Math_max NegInf y = y"
| "Math_max x NegInf = x"
| "Math_max (Fin a) (Fin b) = Fin (max a b)"

text \<open>The comparison \<^verbatim>\<open>x < y\<close>: false as soon as one side is NaN.\<close>

fun js_less :: "number \<Rightarrow> number \<Rightarrow> bool" where
  "js_less NaN _ = False"
| "js_less _ NaN = False"
| "js_less (Fin a) (Fin b) = (a < b)"
| "js_less NegInf NegInf = False"
| "js_less NegInf _ = True"
| "js_less _ NegInf = False"
| "js_less PosInf _ = False"
| "js_less _ PosInf = True"

text \<open>
  The product \<^verbatim>\<open>x * y\<close> of line 31: zero times an infinity is NaN. A finite operand of
  line 31 is a sample read from a \<^verbatim>\<open>Float32Array\<close> and clamped to \<open>[-1, 1]\<close>, the other
  operand is \<open>2 ^ 15\<close> or \<open>2 ^ 15 - 1\<close>: the exact product has at most 39 significant bits,
  so binary64 computes it without rounding.
\<close>

definition inf_of_sign :: "real \<Rightarrow> number" where
  "inf_of_sign a = (if a = 0 then NaN else if 0 < a then PosInf else NegInf)"

fun js_times :: "number \<Rightarrow> number \<Rightarrow> number" where
  "js_times NaN _ = NaN"
| "js_times _ NaN = NaN"
| "js_times (Fin a) (Fin b) = Fin (a * b)"
| "js_times (Fin a) PosInf = inf_of_sign a"
| "js_times (Fin a) NegInf = inf_of_sign (- a)"
| "js_times PosInf (Fin b) = inf_of_sign b"
| "js_times NegInf (Fin b) = inf_of_sign (- b)"
| "js_times PosInf PosInf = PosInf"
| "js_times NegInf NegInf = PosInf"
| "js_times PosInf NegInf = NegInf"
| "js_times NegInf PosInf = NegInf"

text \<open>
  The product \<^verbatim>\<open>samplingRate * pauseDuration\<close> of lines 113 and 122 is the binary64 one:
  the exact product rounded to the nearest number with a significand of 53 bits (of the two
  nearest, the one with the even significand), with the least exponent \<open>- 1022\<close>, and to an
  infinity from \<open>2 ^ 1024\<close> on.
\<close>

definition round_even :: "real \<Rightarrow> int" where
  "round_even x =
     (let f = \<lfloor>x\<rfloor>; d = x - of_int f
      in if d < 1 / 2 then f else if 1 / 2 < d then f + 1 else if even f then f else f + 1)"

definition fl64 :: "real \<Rightarrow> number" where
  "fl64 x =
     (if x = 0 then Fin 0
      else let e = max \<lfloor>log 2 \<bar>x\<bar>\<rfloor> (- 1022);
               ulp = power_int 2 (e - 52);
               y = of_int (round_even (x / ulp)) * ulp
           in if 2 ^ 1024 \<le> \<bar>y\<bar> then (if 0 < x then PosInf else NegInf) else Fin y)"

definition times64 :: "real \<Rightarrow> real \<Rightarrow> number" where
  "times64 a b = fl64 (a * b)"

text \<open>ECMAScript's truncation of a finite number towards zero.\<close>

definition js_trunc :: "real \<Rightarrow> int" where
  "js_trunc x = (if x < 0 then \<lceil>x\<rceil> else \<lfloor>x\<rfloor>)"

text \<open>
  Storing a number into an \<^verbatim>\<open>Int16Array\<close> (ToInt16): NaN and the infinities become 0, a
  finite number is truncated and wrapped modulo \<open>2 ^ 16\<close>.
\<close>

definition ToInt16 :: "number \<Rightarrow> 16 word" where
  "ToInt16 v = (case v of Fin x \<Rightarrow> word_of_int (js_trunc x) | _ \<Rightarrow> 0)"

text \<open>
  Thrown values. \<open>Nullish\<close> is \<^verbatim>\<open>null\<close> or \<^verbatim>\<open>undefined\<close>, thrown by the engine or by the WAV
  library; \<open>External\<close> is any other value that they throw, with its \<^verbatim>\<open>context\<close> property
  when it has one; a context holds an optional \<^verbatim>\<open>itemIndex\<close>. A \<^verbatim>\<open>NodeOperationError\<close> is
  built from a message or from another thrown value and always has a context.
\<close>

datatype js_error =
    RangeError
  | TypeError
  | Nullish
  | External nat "nat option option"
  | NodeOperationError "string + js_error" "nat option"

text \<open>
  The allocation of a \<^verbatim>\<open>Float32Array\<close> of \<open>n\<close> elements, filled with zeros. A negative
  length is a RangeError, and so is a buffer that cannot be created: ECMAScript refuses a
  byte length \<open>4 * n\<close> above \<open>2 ^ 53 - 1\<close>, and an engine refuses the lengths above a limit of
  its own, which is the parameter \<open>limit\<close>.
\<close>

definition float32Limit :: "nat \<Rightarrow> nat" where
  "float32Limit limit = min limit ((2 ^ 53 - 1) div 4)"

definition allocFloat32 :: "nat \<Rightarrow> int \<Rightarrow> js_error + number list" where
  "allocFloat32 limit n =
     (if n < 0 \<or> int (float32Limit limit) < n then Inl RangeError
      else Inr (replicate (nat n) (Fin 0)))"

text \<open>
  \<^verbatim>\<open>new Float32Array(length)\<close> with a number: the length is converted by ToIndex (NaN counts
  as 0, a finite number is truncated towards zero, an infinity is a RangeError), then the
  array is allocated.
\<close>

definition newFloat32Array :: "nat \<Rightarrow> number \<Rightarrow> js_error + number list" where
  "newFloat32Array limit len =
     (case len of
        NaN \<Rightarrow> allocFloat32 limit 0
      | Fin x \<Rightarrow> allocFloat32 limit (js_trunc x)
      | _ \<Rightarrow> Inl RangeError)"

text \<open>Lines 113 and 122: \<^verbatim>\<open>new Float32Array(samplingRate * pauseDuration)\<close>.\<close>

definition pauseSamples :: "nat \<Rightarrow> real \<Rightarrow> real \<Rightarrow> js_error + number list" where
  "pauseSamples limit samplingRate pauseDuration =
     newFloat32Array limit (times64 samplingRate pauseDuration)"

section \<open>The helpers of the node\<close>

text \<open>\<^verbatim>\<open>result.set(arr, offset)\<close>: a RangeError when \<open>arr\<close> does not fit.\<close>

definition typed_set :: "number list \<Rightarrow> number list \<Rightarrow> nat \<Rightarrow> js_error + number list" where
  "typed_set result arr offset =
     (if offset + length arr \<le> length result
      then Inr (take offset result @ arr @ drop (offset + length arr) result)
      else Inl RangeError)"

text \<open>The \<^verbatim>\<open>forEach\<close> of \<^verbatim>\<open>concatFloat32Arrays\<close> (lines 17-20), threading result and offset.\<close>

fun copyChunks :: "number list list \<Rightarrow> number list \<times> nat \<Rightarrow> js_error + number list \<times> nat" where
  "copyChunks [] (result, offset) = Inr (result, offset)"
| "copyChunks (arr # arrays) (result, offset) =
     (case typed_set result arr offset of
        Inl e \<Rightarrow> Inl e
      | Inr result' \<Rightarrow> copyChunks arrays (result', offset + length arr))"

text \<open>
  \<^verbatim>\<open>concatFloat32Arrays\<close> (lines 13-22). \<open>totalLength\<close> is a sum of array lengths; the
  allocation of line 15 is the one above.
\<close>

definition concatFloat32Arrays :: "nat \<Rightarrow> number list list \<Rightarrow> js_error + number list" where
  "concatFloat32Arrays limit arrays =
     (let totalLength = foldl (\<lambda>sum arr. sum + length arr) 0 arrays
      in case allocFloat32 limit (int totalLength) of
           Inl e \<Rightarrow> Inl e
         | Inr result \<Rightarrow>
             (case copyChunks arrays (result, 0) of
                Inl e \<Rightarrow> Inl e
              | Inr (result', offset) \<Rightarrow> Inr result'))"

text \<open>Lines 30-31: the value stored for one sample.\<close>

definition quantizeSample :: "number \<Rightarrow> 16 word" where
  "quantizeSample x =
     (let s = Math_max (Fin (- 1)) (Math_min (Fin 1) x)
      in ToInt16 (if js_less s (Fin 0) then js_times s (Fin 32768) else js_times s (Fin 32767)))"

text \<open>
  The loop of \<^verbatim>\<open>float32ToInt16\<close> (lines 28-32), from index \<open>i\<close>. The \<^verbatim>\<open>Int16Array\<close> of
  line 27 has the length of a \<^verbatim>\<open>Float32Array\<close> that exists, and half its bytes.
\<close>

function float32ToInt16_loop :: "nat \<Rightarrow> nat \<Rightarrow> number list \<Rightarrow> 16 word list \<Rightarrow> 16 word list" where
  "float32ToInt16_loop i l buffer result =
     (if i < l
      then float32ToInt16_loop (i + 1) l buffer (result[i := quantizeSample (buffer ! i)])
      else result)"
  by pat_completeness auto
termination
  by (relation "measure (\<lambda>(i, l, buffer, result). l - i)") auto

declare float32ToInt16_loop.simps [simp del]

definition float32ToInt16 :: "number list \<Rightarrow> 16 word list" where
  "float32ToInt16 buffer =
     (let l = length buffer; result = replicate l 0
      in float32ToInt16_loop 0 l buffer result)"

section \<open>Segmentation of the text (lines 105-106)\<close>

text \<open>\<^verbatim>\<open>text.split(sep)\<close> for a separator of one code unit.\<close>

fun split :: "jsstring \<Rightarrow> 16 word \<Rightarrow> jsstring list" where
  "split [] sep = [[]]"
| "split (c # cs) sep =
     (if c = sep then [] # split cs sep
      else (case split cs sep of
              [] \<Rightarrow> [[c]]
            | line # lines \<Rightarrow> (c # line) # lines))"

text \<open>
  The code units that \<^verbatim>\<open>trim\<close> strips: ECMAScript's WhiteSpace (TAB, VT, FF, the BOM and
  the space separators of Unicode) and LineTerminator (LF, CR, LS, PS).
\<close>

definition isWhiteSpace :: "16 word \<Rightarrow> bool" where
  "isWhiteSpace c \<longleftrightarrow>
     c \<in> set [0x0009, 0x000A, 0x000B, 0x000C, 0x000D, 0x0020, 0x00A0, 0x1680,
              0x2028, 0x2029, 0x202F, 0x205F, 0x3000, 0xFEFF]
     \<or> (0x2000 \<le> c \<and> c \<le> 0x200A)"

definition trim :: "jsstring \<Rightarrow> jsstring" where
  "trim s = rev (dropWhile isWhiteSpace (rev (dropWhile isWhiteSpace s)))"

definition newline :: "16 word" where
  "newline = 0x000A"

text \<open>Line 106: \<^verbatim>\<open>text.split('\n').filter((sentence) => sentence.trim() !== '')\<close>.\<close>

definition splitSentences :: "jsstring \<Rightarrow> jsstring list" where
  "splitSentences text = filter (\<lambda>sentence. trim sentence \<noteq> []) (split text newline)"

section \<open>The engine, the WAV library and the host\<close>

text \<open>What \<^verbatim>\<open>tts.generate\<close> returns: the samples and the rate it reports.\<close>

record raw_audio =
  audio :: "number list"
  sampling_rate :: real

text \<open>
  \<^verbatim>\<open>tts.generate(sentence, { voice })\<close> is a call on an object outside the repository: from
  the state of the engine before the call it gives a result or a thrown value, and the state
  of the engine after the call. Two calls with the same sentence and voice need not answer
  alike.
\<close>

type_synonym 's tts = "'s \<Rightarrow> jsstring \<Rightarrow> jsstring \<Rightarrow> (js_error + raw_audio) \<times> 's"

text \<open>
  The answers of the engine to calls for the given sentences with the given voice, one after
  the other from the state \<open>s\<close>, and the state of the engine after these calls.
\<close>

fun answers :: "'s tts \<Rightarrow> jsstring \<Rightarrow> jsstring list \<Rightarrow> 's \<Rightarrow> (js_error + raw_audio) list" where
  "answers generate voice [] s = []"
| "answers generate voice (sentence # rest) s =
     fst (generate s sentence voice) # answers generate voice rest (snd (generate s sentence voice))"

fun engineAfter :: "'s tts \<Rightarrow> jsstring \<Rightarrow> jsstring list \<Rightarrow> 's \<Rightarrow> 's" where
  "engineAfter generate voice [] s = s"
| "engineAfter generate voice (sentence # rest) s =
     engineAfter generate voice rest (snd (generate s sentence voice))"

text \<open>The arguments of \<^verbatim>\<open>wav.fromScratch\<close> (line 137).\<close>

record wavefile =
  numChannels :: nat
  sampleRate :: real
  bitDepth :: string
  samples :: "16 word list"

record binary_data =
  data :: string
  mimeType :: string
  fileName :: string

text \<open>
  An item of the run. Its \<^verbatim>\<open>json\<close> is a reference to an object in the heap, so that two
  items can hold the same object: the item pushed at line 154 holds the \<^verbatim>\<open>json\<close> object of an
  input item, and line 151 writes through that reference. The items themselves are distinct
  objects, so the array \<^verbatim>\<open>items\<close> is a list of item values.
\<close>

type_synonym addr = nat
type_synonym json_object = "string \<rightharpoonup> string"

record item =
  json :: addr
  binary :: "(string \<times> binary_data) list option"
  error :: "js_error option"
  pairedItem :: "nat option"

text \<open>The state of a run: the array \<^verbatim>\<open>items\<close>, the JSON objects and the engine.\<close>

record 's state =
  items :: "item list"
  heap :: "addr \<Rightarrow> json_object"
  engine :: 's

text \<open>
  The host and the libraries. The node declares one input (line 46), which is the input
  number 0: \<open>inputItems\<close> is what \<^verbatim>\<open>getInputData()\<close> gives for it (its items, or a thrown
  value). For any other input number there are no items: \<open>otherInput\<close> tells whether the call
  throws, and what. Then \<^verbatim>\<open>getNodeParameter(name, itemIndex)\<close> for the three parameters of the
  node (the text with its fallback \<^verbatim>\<open>''\<close>), \<^verbatim>\<open>continueOnFail()\<close>, the outcome of
  \<^verbatim>\<open>KokoroTTS.from_pretrained\<close> (the engine and its state), the wavefile library with the
  base64 encoding of its buffer (lines 136-144), the JSON objects of the input, and the
  largest typed array that the JavaScript engine allocates.
\<close>

record 's host =
  inputItems :: "js_error + item list"
  otherInput :: "nat \<Rightarrow> js_error option"
  param_text :: "nat \<Rightarrow> jsstring"
  param_voice :: "nat \<Rightarrow> jsstring"
  param_pauseDuration :: "nat \<Rightarrow> real"
  continueOnFail :: bool
  from_pretrained :: "js_error + 's tts \<times> 's"
  toBase64Wav :: "wavefile \<Rightarrow> js_error + string"
  inputHeap :: "addr \<Rightarrow> json_object"
  maxLength :: nat

text \<open>\<^verbatim>\<open>this.getInputData(inputIndex)\<close>.\<close>

definition getInputData :: "'s host \<Rightarrow> nat \<Rightarrow> js_error + item list" where
  "getInputData h inputIndex =
     (if inputIndex = 0 then inputItems h
      else (case otherInput h inputIndex of Some e \<Rightarrow> Inl e | None \<Rightarrow> Inr []))"

section \<open>Processing one item\<close>

text \<open>
  The sentence loop (lines 116-127), threading \<open>samplingRate\<close>, \<open>audioChunks\<close> and the
  engine; the variable \<^verbatim>\<open>pauseSamples\<close> is assigned anew before each use.
\<close>

fun sentenceLoop ::
  "nat \<Rightarrow> 's tts \<Rightarrow> jsstring \<Rightarrow> real \<Rightarrow> jsstring list \<Rightarrow> real \<times> number list list \<Rightarrow> 's
    \<Rightarrow> (js_error + real \<times> number list list) \<times> 's" where
  "sentenceLoop limit generate voice pauseDuration [] (samplingRate, audioChunks) s =
     (Inr (samplingRate, audioChunks), s)"
| "sentenceLoop limit generate voice pauseDuration (sentence # rest) (samplingRate, audioChunks) s =
     (case generate s sentence voice of
        (Inl e, s') \<Rightarrow> (Inl e, s')
      | (Inr rawAudio, s') \<Rightarrow>
          (case pauseSamples limit (sampling_rate rawAudio) pauseDuration of
             Inl e \<Rightarrow> (Inl e, s')
           | Inr pause \<Rightarrow>
               sentenceLoop limit generate voice pauseDuration rest
                 (sampling_rate rawAudio, audioChunks @ [audio rawAudio, pause]) s'))"

text \<open>Lines 109-130: the rate and the flattened audio of a sentence sequence.\<close>

definition assemble ::
  "nat \<Rightarrow> 's tts \<Rightarrow> jsstring \<Rightarrow> real \<Rightarrow> jsstring list \<Rightarrow> 's
    \<Rightarrow> (js_error + real \<times> number list) \<times> 's" where
  "assemble limit generate voice pauseDuration sentences s =
     (case pauseSamples limit 22050 pauseDuration of
        Inl e \<Rightarrow> (Inl e, s)
      | Inr pause \<Rightarrow>
          (case sentenceLoop limit generate voice pauseDuration sentences (22050, []) s of
             (Inl e, s') \<Rightarrow> (Inl e, s')
           | (Inr (samplingRate, audioChunks), s') \<Rightarrow>
               (case concatFloat32Arrays limit audioChunks of
                  Inl e \<Rightarrow> (Inl e, s')
                | Inr flattenedAudio \<Rightarrow> (Inr (samplingRate, flattenedAudio), s'))))"

text \<open>Lines 106-137: the WAV file built from a text.\<close>

definition buildWav ::
  "nat \<Rightarrow> 's tts \<Rightarrow> jsstring \<Rightarrow> real \<Rightarrow> jsstring \<Rightarrow> 's \<Rightarrow> (js_error + wavefile) \<times> 's" where
  "buildWav limit generate voice pauseDuration text s =
     (case assemble limit generate voice pauseDuration (splitSentences text) s of
        (Inl e, s') \<Rightarrow> (Inl e, s')
      | (Inr (samplingRate, flattenedAudio), s') \<Rightarrow>
          (Inr \<lparr>numChannels = 1, sampleRate = samplingRate, bitDepth = ''16'',
                samples = float32ToInt16 flattenedAudio\<rparr>, s'))"

text \<open>
  Lines 100-148, up to the value attached to the item. Nothing is written before the last
  statement that can throw, so the body of the \<^verbatim>\<open>try\<close> is this computation followed by
  \<open>attach\<close>.
\<close>

definition processItem ::
  "'s host \<Rightarrow> 's tts \<Rightarrow> jsstring \<Rightarrow> real \<Rightarrow> nat \<Rightarrow> 's \<Rightarrow> (js_error + binary_data) \<times> 's" where
  "processItem h generate voice pauseDuration itemIndex s =
     (let text = param_text h itemIndex
      in if text = []
         then (Inl (NodeOperationError (Inl ''No text provided'') (Some itemIndex)), s)
         else (case buildWav (maxLength h) generate voice pauseDuration text s of
                 (Inl e, s') \<Rightarrow> (Inl e, s')
               | (Inr wav, s') \<Rightarrow>
                   (case toBase64Wav h wav of
                      Inl e \<Rightarrow> (Inl e, s')
                    | Inr b64 \<Rightarrow>
                        (Inr \<lparr>data = b64, mimeType = ''audio/wav'', fileName = ''result.wav''\<rparr>,
                         s'))))"

text \<open>Lines 142-151: the attachment and the status, written through the item's reference.\<close>

definition attach :: "nat \<Rightarrow> binary_data \<Rightarrow> 's state \<Rightarrow> 's state" where
  "attach itemIndex b st =
     (let it = items st ! itemIndex
      in st\<lparr>items := (items st)[itemIndex := it\<lparr>binary := Some [(''audio'', b)]\<rparr>],
            heap := (heap st)(json it := (heap st (json it))(''ttsStatus'' \<mapsto> ''success''))\<rparr>)"

text \<open>
  Lines 160-164: the value thrown when the host does not continue on failure. Reading
  \<^verbatim>\<open>error.context\<close> of \<^verbatim>\<open>null\<close> or \<^verbatim>\<open>undefined\<close> is a TypeError.
\<close>

fun rethrow :: "js_error \<Rightarrow> nat \<Rightarrow> js_error" where
  "rethrow Nullish itemIndex = TypeError"
| "rethrow (External n (Some c)) itemIndex = External n (Some (Some itemIndex))"
| "rethrow (NodeOperationError m c) itemIndex = NodeOperationError m (Some itemIndex)"
| "rethrow e itemIndex = NodeOperationError (Inr e) (Some itemIndex)"

text \<open>The \<^verbatim>\<open>itemIndex\<close> held by the context of a thrown value, when it has one.\<close>

fun contextItemIndex :: "js_error \<Rightarrow> nat option" where
  "contextItemIndex (External n (Some c)) = c"
| "contextItemIndex (NodeOperationError m c) = c"
| "contextItemIndex e = None"

text \<open>Lines 154-158: the item pushed for a failed item.\<close>

definition errorItem :: "item \<Rightarrow> js_error \<Rightarrow> nat \<Rightarrow> item" where
  "errorItem first e itemIndex =
     \<lparr>json = json first, binary = None, error = Some e, pairedItem = Some itemIndex\<rparr>"

text \<open>
  One iteration of the item loop (lines 98-166). In the \<^verbatim>\<open>catch\<close> block, line 155 passes
  the index of the item as an input number; reading \<^verbatim>\<open>.json\<close> of
  \<^verbatim>\<open>this.getInputData(itemIndex)[0]\<close> is a TypeError when that input has no item, and a value
  thrown inside the \<^verbatim>\<open>catch\<close> block leaves \<^verbatim>\<open>execute\<close>.
\<close>

definition loopBody ::
  "'s host \<Rightarrow> 's tts \<Rightarrow> jsstring \<Rightarrow> real \<Rightarrow> nat \<Rightarrow> 's state \<Rightarrow> js_error + 's state" where
  "loopBody h generate voice pauseDuration itemIndex st =
     (case processItem h generate voice pauseDuration itemIndex (engine st) of
        (Inr b, s') \<Rightarrow> Inr (attach itemIndex b (st\<lparr>engine := s'\<rparr>))
      | (Inl e, s') \<Rightarrow>
          if continueOnFail h
          then (case getInputData h itemIndex of
                  Inl e' \<Rightarrow> Inl e'
                | Inr [] \<Rightarrow> Inl TypeError
                | Inr (first # others) \<Rightarrow>
                    Inr (st\<lparr>items := items st @ [errorItem first e itemIndex], engine := s'\<rparr>))
          else Inl (rethrow e itemIndex))"

text \<open>Line 102: the error thrown for an empty text.\<close>

definition noText :: "nat \<Rightarrow> js_error" where
  "noText itemIndex = NodeOperationError (Inl ''No text provided'') (Some itemIndex)"

section \<open>The run\<close>

text \<open>
  The item loop (line 97). Its bound \<^verbatim>\<open>items.length\<close> is read at every iteration and
  \<^verbatim>\<open>items.push\<close> moves it: the loop runs on fuel, one unit per test of the condition, and
  \<open>None\<close> is a run that has not ended yet.
\<close>

fun itemLoop ::
  "nat \<Rightarrow> 's host \<Rightarrow> 's tts \<Rightarrow> jsstring \<Rightarrow> real \<Rightarrow> nat \<Rightarrow> 's state
    \<Rightarrow> (js_error + 's state) option" where
  "itemLoop 0 h generate voice pauseDuration itemIndex st = None"
| "itemLoop (Suc fuel) h generate voice pauseDuration itemIndex st =
     (if itemIndex < length (items st)
      then (case loopBody h generate voice pauseDuration itemIndex st of
              Inl e \<Rightarrow> Some (Inl e)
            | Inr st' \<Rightarrow> itemLoop fuel h generate voice pauseDuration (itemIndex + 1) st')
      else Some (Inr st))"

text \<open>The indices whose iteration starts within the given fuel, in order.\<close>

fun visited ::
  "nat \<Rightarrow> 's host \<Rightarrow> 's tts \<Rightarrow> jsstring \<Rightarrow> real \<Rightarrow> nat \<Rightarrow> 's state \<Rightarrow> nat list" where
  "visited 0 h generate voice pauseDuration itemIndex st = []"
| "visited (Suc fuel) h generate voice pauseDuration itemIndex st =
     (if itemIndex < length (items st)
      then itemIndex #
           (case loopBody h generate voice pauseDuration itemIndex st of
              Inl e \<Rightarrow> []
            | Inr st' \<Rightarrow> visited fuel h generate voice pauseDuration (itemIndex + 1) st')
      else [])"

text \<open>\<^verbatim>\<open>execute\<close> (lines 75-170): the thrown value, or \<^verbatim>\<open>[items]\<close> and the heap.\<close>

definition execute ::
  "nat \<Rightarrow> 's host \<Rightarrow> (js_error + item list list \<times> (addr \<Rightarrow> json_object)) option" where
  "execute fuel h =
     (case getInputData h 0 of
        Inl e \<Rightarrow> Some (Inl e)
      | Inr its \<Rightarrow>
          (let voice = param_voice h 0;
               pauseDuration = param_pauseDuration h 0
           in case from_pretrained h of
                Inl e \<Rightarrow> Some (Inl (NodeOperationError (Inl ''Failed to load TTS model'') None))
              | Inr (generate, s0) \<Rightarrow>
                  (case itemLoop fuel h generate voice pauseDuration 0
                          \<lparr>items = its, heap = inputHeap h, engine = s0\<rparr> of
                     None \<Rightarrow> None
                   | Some (Inl e) \<Rightarrow> Some (Inl e)
                   | Some (Inr st) \<Rightarrow> Some (Inr ([items st], heap st)))))"

section \<open>Example runs\<close>

text \<open>An engine that allocates typed arrays of up to \<open>2 ^ 24\<close> elements.\<close>

definition exampleLimit :: nat where
  "exampleLimit = 2 ^ 24"

text \<open>
  An engine whose state counts its calls. It throws on the sentence \<open>fail\<close>; otherwise a call
  that follows an even number of calls answers 1000 zero samples at 22050 Hz, and a call that
  follows an odd number of calls answers 500 samples of amplitude 0.5 at 24000 Hz.
\<close>

definition stubTts :: "nat tts" where
  "stubTts calls sentence voice =
     (if sentence = js ''fail'' then Inl (External 7 None)
      else if even calls then Inr \<lparr>audio = replicate 1000 (Fin 0), sampling_rate = 22050\<rparr>
      else Inr \<lparr>audio = replicate 500 (Fin (1 / 2)), sampling_rate = 24000\<rparr>,
      calls + 1)"


text \<open>A WAV library that accepts every file, and one whose output shows the sample count.\<close>

definition stubEncoder :: "wavefile \<Rightarrow> js_error + string" where
  "stubEncoder wav = Inr ''UklGRg==''"


definition stubAudio :: binary_data where
  "stubAudio = \<lparr>data = ''UklGRg=='', mimeType = ''audio/wav'', fileName = ''result.wav''\<rparr>"


definition plainItem :: "addr \<Rightarrow> item" where
  "plainItem a = \<lparr>json = a, binary = None, error = None, pairedItem = None\<rparr>"

text \<open>
  Three items on the input of the node. The text is \<open>fail\<close> at index 0 and \<open>Hello\<close> at any
  other index. The host continues on failure.
\<close>

definition firstFailsHost :: "nat host" where
  "firstFailsHost =
     \<lparr>inputItems = Inr [plainItem 0, plainItem 1, plainItem 2],
      otherInput = (\<lambda>inputIndex. None),
      param_text = (\<lambda>itemIndex. if itemIndex = 0 then js ''fail'' else js ''Hello''),
      param_voice = (\<lambda>itemIndex. js ''af_heart''),
      param_pauseDuration = (\<lambda>itemIndex. 1 / 2),
      continueOnFail = True,
      from_pretrained = Inr (stubTts, 0),
      toBase64Wav = stubEncoder,
      inputHeap = (\<lambda>a. Map.empty),
      maxLength = exampleLimit\<rparr>"

text \<open>The same run with the text \<open>fail\<close> at index 1 instead.\<close>

definition secondFailsHost :: "nat host" where
  "secondFailsHost =
     firstFailsHost\<lparr>param_text := (\<lambda>itemIndex. if itemIndex = 1 then js ''fail'' else js ''Hello'')\<rparr>"

text \<open>One item; the text is empty at every index.\<close>

definition blankHost :: "nat host" where
  "blankHost =
     \<lparr>inputItems = Inr [plainItem 0],
      otherInput = (\<lambda>inputIndex. None),
      param_text = (\<lambda>itemIndex. []),
      param_voice = (\<lambda>itemIndex. js ''af_heart''),
      param_pauseDuration = (\<lambda>itemIndex. 1 / 2),
      continueOnFail = True,
      from_pretrained = Inr (stubTts, 0),
      toBase64Wav = stubEncoder,
      inputHeap = (\<lambda>a. Map.empty),
      maxLength = exampleLimit\<rparr>"

text \<open>One item with the text \<open>Hello\<close> and a pause of \<open>- 1 / 32768\<close> seconds.\<close>

definition negativePauseHost :: "nat host" where
  "negativePauseHost =
     \<lparr>inputItems = Inr [plainItem 0],
      otherInput = (\<lambda>inputIndex. None),
      param_text = (\<lambda>itemIndex. js ''Hello''),
      param_voice = (\<lambda>itemIndex. js ''af_heart''),
      param_pauseDuration = (\<lambda>itemIndex. - (1 / 32768)),
      continueOnFail = False,
      from_pretrained = Inr (stubTts, 0),
      toBase64Wav = stubEncoder,
      inputHeap = (\<lambda>a. Map.empty),
      maxLength = exampleLimit\<rparr>"

text \<open>One item whose text is a single space.\<close>

definition spaceHost :: "nat host" where
  "spaceHost =
     \<lparr>inputItems = Inr [plainItem 0],
      otherInput = (\<lambda>inputIndex. None),
      param_text = (\<lambda>itemIndex. js '' ''),
      param_voice = (\<lambda>itemIndex. js ''af_heart''),
      param_pauseDuration = (\<lambda>itemIndex. 1 / 2),
      continueOnFail = False,
      from_pretrained = Inr (stubTts, 0),
      toBase64Wav = stubEncoder,
      inputHeap = (\<lambda>a. Map.empty),
      maxLength = exampleLimit\<rparr>"



text \<open>
  The state of a run over the single item \<open>plainItem 0\<close>, before the first call of the
  engine.
\<close>

definition oneItem :: "nat state" where
  "oneItem = \<lparr>items = [plainItem 0], heap = (\<lambda>a. Map.empty), engine = 0\<rparr>"


text \<open>The binary64 numbers nearest to 0.3 and to \<open>- 1 / 24000\<close>.\<close>

definition nearest_0_3 :: real where
  "nearest_0_3 = 5404319552844595 / 2 ^ 54"

definition nearest_minus_1_24000 :: real where
  "nearest_minus_1_24000 = - (6148914691236517 / 2 ^ 67)"

section \<open>Properties of the helpers\<close>

declare pauseSamples_def [simp]

subsection \<open>Quantization\<close>

lemma float32ToInt16_loop_eq:
  "i \<le> l \<Longrightarrow> l = length buffer \<Longrightarrow> length result = l \<Longrightarrow>
   float32ToInt16_loop i l buffer result = take i result @ map quantizeSample (drop i buffer)"
proof (induction i l buffer result rule: float32ToInt16_loop.induct)
  case (1 i l buffer result)
  show ?case
  proof (cases "i < l")
    case True
    let ?r = "result[i := quantizeSample (buffer ! i)]"
    have "float32ToInt16_loop i l buffer result = float32ToInt16_loop (i + 1) l buffer ?r"
      using True by (simp add: float32ToInt16_loop.simps [of i])
    also have "\<dots> = take (i + 1) ?r @ map quantizeSample (drop (i + 1) buffer)"
      using True "1.prems" by (intro "1.IH") auto
    also have "take (i + 1) ?r = take i result @ [quantizeSample (buffer ! i)]"
      using True "1.prems" by (simp add: take_Suc_conv_app_nth)
    also have "(take i result @ [quantizeSample (buffer ! i)])
                 @ map quantizeSample (drop (i + 1) buffer)
               = take i result @ map quantizeSample (drop i buffer)"
      using True "1.prems" by (simp add: Cons_nth_drop_Suc [symmetric])
    finally show ?thesis .
  next
    case False
    then show ?thesis using "1.prems" by (subst float32ToInt16_loop.simps) simp
  qed
qed

lemma float32ToInt16_map: "float32ToInt16 buffer = map quantizeSample buffer"
  by (simp add: float32ToInt16_def Let_def float32ToInt16_loop_eq)

lemma js_trunc_range:
  "- 32768 \<le> x \<Longrightarrow> x \<le> 32767 \<Longrightarrow> - 32768 \<le> js_trunc x \<and> js_trunc x \<le> 32767"
  unfolding js_trunc_def
  by (auto simp: le_floor_iff floor_le_iff ceiling_le_iff le_ceiling_iff)

lemma sint_word16:
  "- 32768 \<le> k \<Longrightarrow> k \<le> 32767 \<Longrightarrow> sint (word_of_int k :: 16 word) = k"
  by (simp add: sint_sbintrunc' signed_take_bit_int_eq_self)

lemma quantizeSample_Fin_word:
  "quantizeSample (Fin x) =
     word_of_int (js_trunc (if max (- 1) (min 1 x) < 0 then max (- 1) (min 1 x) * 32768
                            else max (- 1) (min 1 x) * 32767))"
  by (auto simp: quantizeSample_def Let_def ToInt16_def min_def max_def)

lemma quantizeSample_Fin:
  "sint (quantizeSample (Fin x)) =
     (let s = max (- 1) (min 1 x) in js_trunc (if s < 0 then s * 32768 else s * 32767))"
proof -
  define s where "s = max (- 1) (min 1 x)"
  have r: "- 1 \<le> s" "s \<le> 1" by (auto simp: s_def)
  define v where "v = (if s < 0 then s * 32768 else s * 32767)"
  have "- 32768 \<le> v \<and> v \<le> 32767" using r by (auto simp: v_def)
  then have "sint (word_of_int (js_trunc v) :: 16 word) = js_trunc v"
    using js_trunc_range [of v] by (intro sint_word16) auto
  then show ?thesis
    unfolding quantizeSample_Fin_word Let_def v_def s_def .
qed

lemma sint_quantizeSample:
  "sint (quantizeSample v) =
     (case v of
        Fin x \<Rightarrow> (let s = max (- 1) (min 1 x)
                  in js_trunc (if s < 0 then s * 32768 else s * 32767))
      | PosInf \<Rightarrow> 32767
      | NegInf \<Rightarrow> - 32768
      | NaN \<Rightarrow> 0)"
proof (cases v)
  case (Fin x)
  then show ?thesis by (simp add: quantizeSample_Fin)
qed (simp_all add: quantizeSample_def ToInt16_def js_trunc_def)

text \<open>
  C3. \<^verbatim>\<open>float32ToInt16\<close> stores, for every sample of every buffer, the sample clamped to
  \<open>[-1, 1]\<close>, then scaled by 32768 when negative and by 32767 otherwise, then truncated
  towards zero; read back as signed 16-bit integers. An infinity is clamped like a finite
  value and NaN is stored as 0. The five boundary values of the specification follow.
\<close>

theorem float32ToInt16_quantizes:
  "map sint (float32ToInt16 buffer) =
     map (\<lambda>v. case v of
                 Fin x \<Rightarrow> (let s = max (- 1) (min 1 x)
                           in js_trunc (if s < 0 then s * 32768 else s * 32767))
               | PosInf \<Rightarrow> 32767
               | NegInf \<Rightarrow> - 32768
               | NaN \<Rightarrow> 0) buffer
   \<and> map sint (float32ToInt16 [Fin 1]) = [32767]
   \<and> map sint (float32ToInt16 [Fin (- 1)]) = [- 32768]
   \<and> map sint (float32ToInt16 [Fin 2]) = [32767]
   \<and> map sint (float32ToInt16 [Fin (- 2)]) = [- 32768]
   \<and> map sint (float32ToInt16 [Fin 0]) = [0]"
proof -
  have "map sint (float32ToInt16 b) =
          map (\<lambda>v. case v of
                 Fin x \<Rightarrow> (let s = max (- 1) (min 1 x)
                           in js_trunc (if s < 0 then s * 32768 else s * 32767))
               | PosInf \<Rightarrow> 32767
               | NegInf \<Rightarrow> - 32768
               | NaN \<Rightarrow> 0) b" for b
    unfolding float32ToInt16_map map_map comp_def sint_quantizeSample ..
  then show ?thesis
    by (simp add: js_trunc_def)
qed


subsection \<open>The binary64 product\<close>

lemma round_even_of_int [simp]: "round_even (of_int m) = m"
  by (simp add: round_even_def)

lemma round_even_le: "z \<le> of_int k \<Longrightarrow> round_even z \<le> k"
  unfolding round_even_def Let_def by (auto simp: floor_le_iff)

lemma round_even_ge: "of_int k \<le> z \<Longrightarrow> k \<le> round_even z"
  unfolding round_even_def Let_def by (auto simp: le_floor_iff) linarith+

lemma floor_log2_eq:
  assumes "power_int 2 e \<le> \<bar>x\<bar>" "\<bar>x\<bar> < power_int 2 (e + 1)"
  shows "\<lfloor>log 2 \<bar>x\<bar>\<rfloor> = e"
proof -
  have "(0::real) < power_int 2 e" by simp
  then have pos: "0 < \<bar>x\<bar>"
    using assms(1) by linarith
  have "(2::real) powr of_int e = power_int 2 e"
    using powr_real_of_int' [of 2 e] by simp
  moreover have "(2::real) powr (of_int e + 1) = power_int 2 (e + 1)"
    using powr_real_of_int' [of 2 "e + 1"] by simp
  ultimately show ?thesis
    using assms pos by (simp add: floor_log_eq_powr_iff)
qed

lemma power_int_floor_log2:
  assumes "x \<noteq> 0"
  shows "power_int 2 \<lfloor>log 2 \<bar>x\<bar>\<rfloor> \<le> \<bar>x\<bar>"
proof -
  have pos: "0 < \<bar>x\<bar>" using assms by simp
  have "(2::real) powr of_int \<lfloor>log 2 \<bar>x\<bar>\<rfloor> \<le> \<bar>x\<bar>"
    using floor_log_eq_powr_iff [of "\<bar>x\<bar>" 2 "\<lfloor>log 2 \<bar>x\<bar>\<rfloor>"] pos by simp
  then show ?thesis
    by (simp add: powr_real_of_int')
qed

text \<open>The rounding of a number whose exponent \<open>e\<close> is known and at most 52.\<close>

lemma fl64_eval:
  assumes "power_int 2 e \<le> \<bar>x\<bar>" "\<bar>x\<bar> < power_int 2 (e + 1)" "- 1022 \<le> e" "e \<le> 52"
    and "r = round_even (x * 2 ^ nat (52 - e))" "\<bar>r\<bar> \<le> 2 ^ 53"
  shows "fl64 x = Fin (of_int r / 2 ^ nat (52 - e))"
proof -
  have "(0::real) < power_int 2 e" by simp
  then have "0 < \<bar>x\<bar>"
    using assms(1) by linarith
  then have nz: "x \<noteq> 0"
    by simp
  have e: "max \<lfloor>log 2 \<bar>x\<bar>\<rfloor> (- 1022) = e"
    using floor_log2_eq [OF assms(1,2)] assms(3) by simp
  have ulp: "power_int (2::real) (e - 52) = 1 / 2 ^ nat (52 - e)"
    using assms(4) by (cases "e = 52") (simp_all add: power_int_def field_simps)
  have "\<bar>of_int r / 2 ^ nat (52 - e)\<bar> \<le> (2 ^ 53 :: real)"
  proof -
    have "\<bar>real_of_int r\<bar> \<le> 2 ^ 53"
      using assms(6) by (metis of_int_abs of_int_le_iff of_int_numeral of_int_power)
    moreover have "(1::real) \<le> 2 ^ nat (52 - e)" by simp
    ultimately have "\<bar>real_of_int r\<bar> / 2 ^ nat (52 - e) \<le> 2 ^ 53 / 1"
      by (intro frac_le) simp_all
    then show ?thesis by simp
  qed
  also have "\<dots> < 2 ^ 1024" by simp
  finally have small: "\<not> 2 ^ 1024 \<le> \<bar>of_int r / 2 ^ nat (52 - e) :: real\<bar>" by simp
  show ?thesis
    using nz small unfolding fl64_def e Let_def ulp assms(5) by simp
qed

lemma fl64_cases:
  obtains (zero) "x = 0" "fl64 x = Fin 0"
  | (inf) "x \<noteq> 0" "fl64 x = (if 0 < x then PosInf else NegInf)"
  | (fin) ulp where "x \<noteq> 0" "0 < ulp" "ulp = power_int 2 (max \<lfloor>log 2 \<bar>x\<bar>\<rfloor> (- 1022) - 52)"
      "fl64 x = Fin (of_int (round_even (x / ulp)) * ulp)"
proof (cases "x = 0")
  case True
  then show ?thesis using zero by (simp add: fl64_def)
next
  case False
  define ulp :: real where "ulp = power_int 2 (max \<lfloor>log 2 \<bar>x\<bar>\<rfloor> (- 1022) - 52)"
  have pos: "0 < ulp" by (simp add: ulp_def)
  show ?thesis
  proof (cases "2 ^ 1024 \<le> \<bar>of_int (round_even (x / ulp)) * ulp\<bar>")
    case True
    with False have "fl64 x = (if 0 < x then PosInf else NegInf)"
      by (simp add: fl64_def Let_def ulp_def)
    with False show ?thesis by (rule inf)
  next
    case no: False
    with False have "fl64 x = Fin (of_int (round_even (x / ulp)) * ulp)"
      by (simp add: fl64_def Let_def ulp_def)
    with False pos show ?thesis using fin ulp_def by blast
  qed
qed

text \<open>The rounding keeps the sign, and a number at or below \<open>- 1\<close> stays there.\<close>

lemma fl64_nonneg:
  assumes "0 \<le> x"
  shows "fl64 x = PosInf \<or> (\<exists>y. 0 \<le> y \<and> fl64 x = Fin y)"
proof (cases x rule: fl64_cases)
  case zero
  then show ?thesis by simp
next
  case inf
  with assms show ?thesis by simp
next
  case (fin ulp)
  have "0 \<le> x / ulp" using assms fin(2) by simp
  then have "0 \<le> round_even (x / ulp)" by (intro round_even_ge) simp
  then have "0 \<le> of_int (round_even (x / ulp)) * ulp" using fin(2) by simp
  with fin(4) show ?thesis by blast
qed

lemma fl64_nonpos:
  assumes "x \<le> 0"
  shows "fl64 x = NegInf \<or> (\<exists>y. y \<le> 0 \<and> fl64 x = Fin y)"
proof (cases x rule: fl64_cases)
  case zero
  then show ?thesis by simp
next
  case inf
  with assms show ?thesis by simp
next
  case (fin ulp)
  have "x / ulp \<le> 0" using assms fin(2) by (simp add: divide_nonpos_pos)
  then have "round_even (x / ulp) \<le> 0" by (intro round_even_le) simp
  then have "of_int (round_even (x / ulp)) * ulp \<le> 0" using fin(2)
    by (simp add: mult_nonpos_nonneg)
  with fin(4) show ?thesis by blast
qed

lemma fl64_le_minus_1:
  assumes "x \<le> - 1"
  shows "fl64 x = NegInf \<or> (\<exists>y. y \<le> - 1 \<and> fl64 x = Fin y)"
proof (cases x rule: fl64_cases)
  case zero
  with assms show ?thesis by simp
next
  case inf
  with assms show ?thesis by simp
next
  case (fin ulp)
  define e where "e = \<lfloor>log 2 \<bar>x\<bar>\<rfloor>"
  have "1 \<le> \<bar>x\<bar>" using assms by simp
  then have "0 \<le> log 2 \<bar>x\<bar>" by simp
  then have e0: "0 \<le> e" by (simp add: e_def)
  then have ulp: "ulp = power_int 2 (e - 52)"
    using fin(3) by (simp add: e_def max_def)
  have "power_int 2 e \<le> \<bar>x\<bar>"
    unfolding e_def using fin(1) by (rule power_int_floor_log2)
  then have x: "x \<le> - power_int 2 e" using assms by simp
  have split: "power_int (2::real) e = power_int 2 52 * power_int 2 (e - 52)"
    using power_int_add [of "2::real" 52 "e - 52"] by simp
  have "x / ulp \<le> (- power_int 2 e) / ulp"
    using x fin(2) by (intro divide_right_mono) simp_all
  also have "(- power_int 2 e) / ulp = - (2 ^ 52)"
    using fin(2) unfolding split ulp by simp
  finally have "x / ulp \<le> of_int (- (2 ^ 52))" by simp
  then have "round_even (x / ulp) \<le> - (2 ^ 52)" by (rule round_even_le)
  then have "real_of_int (round_even (x / ulp)) \<le> - (2 ^ 52)"
    by (metis of_int_le_iff of_int_minus of_int_numeral of_int_power)
  then have "of_int (round_even (x / ulp)) * ulp \<le> - (2 ^ 52) * ulp"
    using fin(2) by (intro mult_right_mono) simp_all
  also have "- (2 ^ 52) * ulp = - power_int 2 e"
    unfolding split ulp by simp
  also have "\<dots> \<le> - 1"
    using e0 by (simp add: power_int_def)
  finally show ?thesis using fin(4) by blast
qed

text \<open>The products of the example runs.\<close>

lemma times64_22050_half: "times64 22050 (1 / 2) = Fin 11025"
  using fl64_eval [of 13 11025 "11025 * 2 ^ 39"] by (simp add: times64_def round_even_def)

lemma times64_24000_half: "times64 24000 (1 / 2) = Fin 12000"
  using fl64_eval [of 13 12000 "12000 * 2 ^ 39"] by (simp add: times64_def round_even_def)

lemma times64_22050_3_8: "times64 22050 (3 / 8) = Fin (33075 / 4)"
  using fl64_eval [of 13 "33075 / 4" "33075 * 2 ^ 37"] by (simp add: times64_def round_even_def)

lemma times64_22050_negative: "times64 22050 (- (1 / 32768)) = Fin (- (11025 / 16384))"
  using fl64_eval [of "- 1" "- (11025 / 16384)" "- (11025 * 2 ^ 39)"]
  by (simp add: times64_def round_even_def)

lemma times64_22050_minus_1: "times64 22050 (- 1) = Fin (- 22050)"
  using fl64_eval [of 14 "- 22050" "- (22050 * 2 ^ 38)"] by (simp add: times64_def round_even_def)

lemma times64_24000_nearest_0_3: "times64 24000 nearest_0_3 = Fin 7200"
  using fl64_eval [of 12 "24000 * (5404319552844595 / 2 ^ 54)" "7200 * 2 ^ 40"]
  by (simp add: times64_def round_even_def nearest_0_3_def)

lemma times64_24000_nearest_minus_1_24000: "times64 24000 nearest_minus_1_24000 = Fin (- 1)"
  using fl64_eval [of "- 1" "24000 * (- (6148914691236517 / 2 ^ 67))" "- (2 ^ 53)"]
  by (simp add: times64_def round_even_def nearest_minus_1_24000_def)


lemma times64_4_3: "times64 4 3 = Fin 12"
  using fl64_eval [of 3 12 "12 * 2 ^ 49"] by (simp add: times64_def round_even_def)

subsection \<open>Silence\<close>

lemma js_trunc_nonneg: "0 \<le> x \<Longrightarrow> js_trunc x = \<lfloor>x\<rfloor>"
  by (simp add: js_trunc_def)

lemma allocFloat32_Inr:
  "allocFloat32 limit n = Inr result \<longleftrightarrow>
     0 \<le> n \<and> n \<le> int (float32Limit limit) \<and> result = replicate (nat n) (Fin 0)"
  by (auto simp: allocFloat32_def)

lemma newFloat32Array_Inr:
  assumes "newFloat32Array limit len = Inr gap"
  shows "gap = replicate (length gap) (Fin 0)"
    and "length gap \<le> float32Limit limit"
    and "len = Fin x \<Longrightarrow> gap = replicate (nat (js_trunc x)) (Fin 0)"
  using assms
  by (cases len; auto simp: newFloat32Array_def allocFloat32_Inr)+

lemma newFloat32Array_nonneg:
  assumes "0 \<le> x"
  shows "newFloat32Array limit (Fin x) =
           (if \<lfloor>x\<rfloor> \<le> int (float32Limit limit) then Inr (replicate (nat \<lfloor>x\<rfloor>) (Fin 0))
            else Inl RangeError)"
  using assms by (simp add: newFloat32Array_def allocFloat32_def js_trunc_nonneg)

lemma newFloat32Array_nonpos:
  assumes "x \<le> 0"
  shows "newFloat32Array limit (Fin x) = (if x \<le> - 1 then Inl RangeError else Inr [])"
proof (cases "x \<le> - 1")
  case True
  then have "\<lceil>x\<rceil> \<le> - 1" by (simp add: ceiling_le_iff)
  then show ?thesis using True by (simp add: newFloat32Array_def allocFloat32_def js_trunc_def)
next
  case False
  then have "- 1 < x" by simp
  then have "js_trunc x = 0"
    using assms by (cases "x = 0") (simp_all add: js_trunc_def ceiling_eq_iff)
  then show ?thesis using False by (simp add: newFloat32Array_def allocFloat32_def)
qed

text \<open>
  C4, as the code has it. For a non-negative rate and a non-negative duration, the silence
  buffer \<^verbatim>\<open>new Float32Array(samplingRate * pauseDuration)\<close> has as its length the binary64
  product of the two, truncated (not rounded), and every sample is zero; this when the engine
  allocates that many elements, and the allocation is a RangeError otherwise.
\<close>

theorem pause_samples_length:
  assumes "0 \<le> samplingRate" "0 \<le> pauseDuration"
  shows "pauseSamples limit samplingRate pauseDuration =
           (case times64 samplingRate pauseDuration of
              Fin x \<Rightarrow> if \<lfloor>x\<rfloor> \<le> int (float32Limit limit)
                       then Inr (replicate (nat \<lfloor>x\<rfloor>) (Fin 0)) else Inl RangeError
            | _ \<Rightarrow> Inl RangeError)"
proof -
  have "0 \<le> samplingRate * pauseDuration" using assms by simp
  from fl64_nonneg [OF this] consider
    (inf) "times64 samplingRate pauseDuration = PosInf"
    | (fin) y where "0 \<le> y" "times64 samplingRate pauseDuration = Fin y"
    unfolding times64_def by blast
  then show ?thesis
  proof cases
    case inf
    then show ?thesis by (simp add: newFloat32Array_def)
  next
    case (fin y)
    then show ?thesis by (simp add: newFloat32Array_nonneg)
  qed
qed

text \<open>
  At 22050 Hz and half a second the buffer has 11025 zero samples. At 24000 Hz and the
  binary64 number nearest to 0.3 it has 7200 samples, the exact product being below 7200.
\<close>

theorem pause_samples_length_witness:
  "pauseSamples exampleLimit 22050 (1 / 2) = Inr (replicate 11025 (Fin 0))
   \<and> pauseSamples exampleLimit 24000 nearest_0_3 = Inr (replicate 7200 (Fin 0))
   \<and> \<lfloor>24000 * nearest_0_3\<rfloor> = 7199
   \<and> pauseSamples 10000 22050 (1 / 2) = Inl RangeError"
proof -
  have "\<lfloor>24000 * nearest_0_3\<rfloor> = 7199"
    by (simp add: nearest_0_3_def)
  moreover have "0 \<le> nearest_0_3"
    by (simp add: nearest_0_3_def)
  ultimately show ?thesis
    using pause_samples_length [of 22050 "1 / 2" exampleLimit]
      pause_samples_length [of 24000 nearest_0_3 exampleLimit]
      pause_samples_length [of 22050 "1 / 2" 10000]
    by (simp add: times64_22050_half times64_24000_nearest_0_3 float32Limit_def
        exampleLimit_def)
qed

text \<open>
  C4 as stated fails: at 22050 Hz and 0.375 s the product is 8268.75, which rounds to 8269,
  and the buffer has 8268 samples.
\<close>

theorem pause_samples_not_rounded:
  "pauseSamples exampleLimit 22050 (3 / 8) = Inr (replicate 8268 (Fin 0))
   \<and> round (22050 * (3 / 8) :: real) = 8269"
  by (simp add: times64_22050_3_8 newFloat32Array_def allocFloat32_def float32Limit_def
      exampleLimit_def js_trunc_def round_def)

subsection \<open>Concatenation\<close>

lemma totalLength_foldl:
  "foldl (\<lambda>sum arr. sum + length arr) n arrays = n + length (concat arrays)"
  by (induction arrays arbitrary: n) simp_all

lemma copyChunks_eq:
  "offset + length (concat arrays) \<le> length result \<Longrightarrow>
   copyChunks arrays (result, offset) =
     Inr (take offset result @ concat arrays @ drop (offset + length (concat arrays)) result,
          offset + length (concat arrays))"
proof (induction arrays arbitrary: result offset)
  case Nil
  then show ?case by simp
next
  case (Cons arr arrays)
  let ?r = "take offset result @ arr @ drop (offset + length arr) result"
  have fits: "offset + length arr \<le> length result"
    using Cons.prems by simp
  then have set: "typed_set result arr offset = Inr ?r"
    by (simp add: typed_set_def)
  have len: "length ?r = length result"
    using fits by simp
  have "copyChunks arrays (?r, offset + length arr) =
          Inr (take (offset + length arr) ?r @ concat arrays
                 @ drop (offset + length arr + length (concat arrays)) ?r,
               offset + length arr + length (concat arrays))"
    using Cons.prems len by (intro Cons.IH) simp
  moreover have "take (offset + length arr) ?r = take offset result @ arr"
    using fits by simp
  moreover have "drop (offset + length arr + length (concat arrays)) ?r
                   = drop (offset + length (concat (arr # arrays))) result"
    using fits by (simp add: ac_simps)
  ultimately show ?case
    using set by (simp add: add.assoc)
qed

text \<open>
  \<^verbatim>\<open>concatFloat32Arrays\<close> returns the arrays one after the other when their total length
  can be allocated; every \<^verbatim>\<open>set\<close> fits.
\<close>

lemma concatFloat32Arrays_concat:
  "concatFloat32Arrays limit arrays =
     (if length (concat arrays) \<le> float32Limit limit then Inr (concat arrays)
      else Inl RangeError)"
  by (simp add: concatFloat32Arrays_def Let_def totalLength_foldl allocFloat32_def copyChunks_eq)

subsection \<open>Segmentation\<close>

lemma split_not_Nil: "split text sep \<noteq> []"
  by (induction "text") (auto split: list.splits)

lemma split_no_sep: "line \<in> set (split text sep) \<Longrightarrow> sep \<notin> set line"
proof (induction "text" arbitrary: line)
  case Nil
  then show ?case by simp
next
  case (Cons c cs)
  show ?case
  proof (cases "c = sep")
    case True
    with Cons show ?thesis by auto
  next
    case False
    obtain l ls where sp: "split cs sep = l # ls"
      using split_not_Nil [of cs sep] by (cases "split cs sep") auto
    with Cons False show ?thesis by auto
  qed
qed

lemma split_join: "concat (map (\<lambda>line. line @ [sep]) (split text sep)) = text @ [sep]"
proof (induction "text")
  case Nil
  then show ?case by simp
next
  case (Cons c cs)
  obtain l ls where sp: "split cs sep = l # ls"
    using split_not_Nil [of cs sep] by (cases "split cs sep") auto
  with Cons show ?case by auto
qed

text \<open>A string trims to the empty string exactly when it holds nothing but white space.\<close>

lemma trim_Nil_iff: "trim s = [] \<longleftrightarrow> list_all isWhiteSpace s"
proof -
  have "trim s = [] \<longleftrightarrow> (\<forall>c\<in>set (dropWhile isWhiteSpace s). isWhiteSpace c)"
    by (simp add: trim_def)
  also have "\<dots> \<longleftrightarrow> (\<forall>c\<in>set s. isWhiteSpace c)"
  proof
    assume all: "\<forall>c\<in>set (dropWhile isWhiteSpace s). isWhiteSpace c"
    have "dropWhile isWhiteSpace s = []"
    proof (rule ccontr)
      assume ne: "dropWhile isWhiteSpace s \<noteq> []"
      then have "\<not> isWhiteSpace (hd (dropWhile isWhiteSpace s))"
        by (rule hd_dropWhile)
      moreover have "hd (dropWhile isWhiteSpace s) \<in> set (dropWhile isWhiteSpace s)"
        using ne by (intro hd_in_set)
      ultimately show False using all by blast
    qed
    then show "\<forall>c\<in>set s. isWhiteSpace c"
      by simp
  next
    assume "\<forall>c\<in>set s. isWhiteSpace c"
    then show "\<forall>c\<in>set (dropWhile isWhiteSpace s). isWhiteSpace c"
      by (blast dest: set_dropWhileD)
  qed
  also have "\<dots> \<longleftrightarrow> list_all isWhiteSpace s"
    by (simp add: list_all_iff)
  finally show ?thesis .
qed

lemma splitSentences_filter:
  "splitSentences text = filter (\<lambda>line. \<not> list_all isWhiteSpace line) (split text newline)"
  by (simp add: splitSentences_def trim_Nil_iff)

text \<open>
  C5, as the code has it. The text is cut at every newline and nowhere else; the lines that
  hold something else than white space are kept, in order and as they are (they are not
  trimmed); so every sentence is non-empty, not made of white space only, and free of
  newlines.
\<close>

theorem splitSentences_entries:
  "splitSentences text = filter (\<lambda>line. \<not> list_all isWhiteSpace line) (split text newline)
   \<and> concat (map (\<lambda>line. line @ [newline]) (split text newline)) = text @ [newline]
   \<and> (\<forall>sentence\<in>set (splitSentences text).
         sentence \<noteq> [] \<and> trim sentence \<noteq> [] \<and> \<not> list_all isWhiteSpace sentence
         \<and> newline \<notin> set sentence)
   \<and> subseq (splitSentences text) (split text newline)
   \<and> splitSentences (js ''a\<newline>\<newline>b\<newline>'') = [js ''a'', js ''b'']"
proof (intro conjI ballI)
  show "splitSentences (js ''a\<newline>\<newline>b\<newline>'') = [js ''a'', js ''b'']"
    by (simp add: splitSentences_def js_def trim_def isWhiteSpace_def newline_def)
next
  fix sentence assume "sentence \<in> set (splitSentences text)"
  then have "sentence \<in> set (split text newline)" and "\<not> list_all isWhiteSpace sentence"
    by (simp_all add: splitSentences_filter)
  then show "sentence \<noteq> []" "trim sentence \<noteq> []" "\<not> list_all isWhiteSpace sentence"
    "newline \<notin> set sentence"
    by (auto simp: trim_Nil_iff split_no_sep)
qed (simp_all add: splitSentences_filter split_join)

theorem splitSentences_entries_witness:
  "splitSentences (js '' a \<newline>\<newline>b'') = [js '' a '', js ''b'']
   \<and> concat (map (\<lambda>line. line @ [newline]) (split (js '' a \<newline>\<newline>b'') newline))
       = js '' a \<newline>\<newline>b'' @ [newline]
   \<and> trim (js '' a '') \<noteq> [] \<and> \<not> list_all isWhiteSpace (js '' a '')
   \<and> newline \<notin> set (js '' a '')
   \<and> subseq [js '' a '', js ''b''] [js '' a '', [], js ''b'']"
  using splitSentences_entries [of "js '' a \<newline>\<newline>b''"]
  by (simp add: splitSentences_def js_def trim_def isWhiteSpace_def newline_def)

text \<open>
  C5 as stated fails: the sentence of the text made of a space and the letter \<open>a\<close> keeps
  its leading space.
\<close>

theorem splitSentences_not_trimmed:
  "splitSentences (js '' a'') = [js '' a'']
   \<and> trim (js '' a'') = js ''a''
   \<and> trim (js '' a'') \<noteq> js '' a''"
  by (simp add: splitSentences_def js_def trim_def isWhiteSpace_def newline_def)


section \<open>Properties of the assembly\<close>

lemma answers_Nil_iff [simp]: "answers generate voice sentences s = [] \<longleftrightarrow> sentences = []"
  by (cases sentences) simp_all

lemma length_answers [simp]: "length (answers generate voice sentences s) = length sentences"
  by (induction sentences arbitrary: s) simp_all

lemma sentenceLoop_all_ok:
  assumes "answers generate voice sentences s = map Inr raws"
    and "\<forall>raw\<in>set raws.
           newFloat32Array limit (times64 (sampling_rate raw) pauseDuration) = Inr (gap raw)"
  shows "sentenceLoop limit generate voice pauseDuration sentences (samplingRate, audioChunks) s =
           (Inr (if raws = [] then samplingRate else sampling_rate (last raws),
                 audioChunks @ concat (map (\<lambda>raw. [audio raw, gap raw]) raws)),
            engineAfter generate voice sentences s)"
  using assms
proof (induction sentences arbitrary: raws samplingRate audioChunks s)
  case Nil
  then show ?case by simp
next
  case (Cons sentence rest)
  obtain r s1 where call: "generate s sentence voice = (r, s1)"
    by (cases "generate s sentence voice")
  from Cons.prems(1) obtain raw raws' where raws: "raws = raw # raws'"
    by (cases raws) auto
  have gen: "generate s sentence voice = (Inr raw, s1)"
    and rest: "answers generate voice rest s1 = map Inr raws'"
    using Cons.prems(1) raws call by auto
  have alloc: "newFloat32Array limit (times64 (sampling_rate raw) pauseDuration) = Inr (gap raw)"
    using Cons.prems(2) raws by simp
  have "\<forall>raw\<in>set raws'.
           newFloat32Array limit (times64 (sampling_rate raw) pauseDuration) = Inr (gap raw)"
    using Cons.prems(2) raws by simp
  note IH = Cons.IH [OF rest this, of "sampling_rate raw" "audioChunks @ [audio raw, gap raw]"]
  have "sentenceLoop limit generate voice pauseDuration (sentence # rest)
          (samplingRate, audioChunks) s
        = sentenceLoop limit generate voice pauseDuration rest
            (sampling_rate raw, audioChunks @ [audio raw, gap raw]) s1"
    by (simp add: gen alloc)
  with IH show ?case
    by (simp add: raws gen)
qed


text \<open>
  When every synthesis call succeeds and every allocation succeeds, the assembly is the audio
  of each sentence followed by its silence, and the rate is the last one reported.
\<close>

lemma flat_chunks:
  "concat (concat (map (\<lambda>raw. [audio raw, gap raw]) raws))
     = concat (map (\<lambda>raw. audio raw @ gap raw) raws)"
  by (induction raws) simp_all

lemma length_audio_and_gaps:
  "length (concat (map (\<lambda>raw. audio raw @ gap raw) raws))
     = (\<Sum>raw\<leftarrow>raws. length (audio raw) + length (gap raw))"
  by (induction raws) simp_all

lemma assemble_all_ok:
  assumes "answers generate voice sentences s = map Inr raws"
    and "newFloat32Array limit (times64 22050 pauseDuration) = Inr firstPause"
    and "\<forall>raw\<in>set raws.
           newFloat32Array limit (times64 (sampling_rate raw) pauseDuration) = Inr (gap raw)"
    and "(\<Sum>raw\<leftarrow>raws. length (audio raw) + length (gap raw)) \<le> float32Limit limit"
  shows "assemble limit generate voice pauseDuration sentences s =
           (Inr (if raws = [] then 22050 else sampling_rate (last raws),
                 concat (map (\<lambda>raw. audio raw @ gap raw) raws)),
            engineAfter generate voice sentences s)"
proof -
  have loop: "sentenceLoop limit generate voice pauseDuration sentences (22050, []) s =
           (Inr (if raws = [] then 22050 else sampling_rate (last raws),
                 concat (map (\<lambda>raw. [audio raw, gap raw]) raws)),
            engineAfter generate voice sentences s)"
    using sentenceLoop_all_ok [OF assms(1,3), of 22050 "[]"] by simp
  have "length (concat (concat (map (\<lambda>raw. [audio raw, gap raw]) raws))) \<le> float32Limit limit"
    using assms(4) by (simp add: flat_chunks length_audio_and_gaps)
  then have "concatFloat32Arrays limit (concat (map (\<lambda>raw. [audio raw, gap raw]) raws))
               = Inr (concat (map (\<lambda>raw. audio raw @ gap raw) raws))"
    by (simp add: concatFloat32Arrays_concat flat_chunks)
  then show ?thesis
    by (simp add: assemble_def assms(2) loop)
qed

lemma trailing_gap:
  assumes "raws \<noteq> []"
  shows "suffix (g (last raws)) (concat (map (\<lambda>raw. audio raw @ g raw) raws))"
proof -
  from assms have "raws = butlast raws @ [last raws]" by simp
  then have "concat (map (\<lambda>raw. audio raw @ g raw) raws) =
     concat (map (\<lambda>raw. audio raw @ g raw) (butlast raws @ [last raws]))"
    by simp
  also have "\<dots> = (concat (map (\<lambda>raw. audio raw @ g raw) (butlast raws)) @ audio (last raws))
                    @ g (last raws)"
    by simp
  finally show ?thesis
    unfolding suffix_def by blast
qed


lemma assemble_empty:
  assumes "newFloat32Array limit (times64 22050 pauseDuration) = Inr firstPause"
  shows "assemble limit generate voice pauseDuration [] s = (Inr (22050, []), s)"
  using assms by (simp add: assemble_def concatFloat32Arrays_concat)

lemma assemble_range_error:
  assumes "22050 * pauseDuration \<le> - 1"
  shows "assemble limit generate voice pauseDuration sentences s = (Inl RangeError, s)"
proof -
  from fl64_le_minus_1 [OF assms] consider
    (inf) "times64 22050 pauseDuration = NegInf"
    | (fin) y where "y \<le> - 1" "times64 22050 pauseDuration = Fin y"
    unfolding times64_def by blast
  then have "newFloat32Array limit (times64 22050 pauseDuration) = Inl RangeError"
  proof cases
    case inf
    then show ?thesis by (simp add: newFloat32Array_def)
  next
    case (fin y)
    then show ?thesis by (simp add: newFloat32Array_nonpos)
  qed
  then show ?thesis
    by (simp add: assemble_def)
qed


lemma pause_11025:
  "newFloat32Array exampleLimit (times64 22050 (1 / 2)) = Inr (replicate 11025 (Fin 0))"
  by (simp add: times64_22050_half newFloat32Array_def allocFloat32_def float32Limit_def
      exampleLimit_def js_trunc_def)

lemma pause_12000:
  "newFloat32Array exampleLimit (times64 24000 (1 / 2)) = Inr (replicate 12000 (Fin 0))"
  by (simp add: times64_24000_half newFloat32Array_def allocFloat32_def float32Limit_def
      exampleLimit_def js_trunc_def)

lemma helloTwice_gaps:
  "\<forall>raw\<in>set [\<lparr>audio = replicate 1000 (Fin 0), sampling_rate = 22050\<rparr>,
                 \<lparr>audio = replicate 500 (Fin (1 / 2)), sampling_rate = 24000\<rparr>].
     newFloat32Array exampleLimit (times64 (sampling_rate raw) (1 / 2)) =
       Inr (replicate (if sampling_rate raw = 22050 then 11025 else 12000) (Fin 0))"
  by (simp add: pause_11025 pause_12000)

lemma helloTwice_total:
  "(\<Sum>raw\<leftarrow>[\<lparr>audio = replicate 1000 (Fin 0), sampling_rate = 22050\<rparr>,
               \<lparr>audio = replicate 500 (Fin (1 / 2)), sampling_rate = 24000\<rparr>].
      length (audio raw)
      + length (replicate (if sampling_rate raw = 22050 then 11025 else 12000) (Fin (0::real))))
    \<le> float32Limit exampleLimit"
  by (simp add: float32Limit_def exampleLimit_def)

lemma answers_helloTwice:
  "answers stubTts voice [js ''Hello'', js ''Hello''] 0 =
     map Inr [\<lparr>audio = replicate 1000 (Fin 0), sampling_rate = 22050\<rparr>,
              \<lparr>audio = replicate 500 (Fin (1 / 2)), sampling_rate = 24000\<rparr>]"
  "engineAfter stubTts voice [js ''Hello'', js ''Hello''] 0 = 2"
  by (simp_all add: stubTts_def js_def)

lemma sentenceLoop_Inr:
  fixes limit :: nat and pauseDuration :: real
  defines "G \<equiv> \<lambda>raw :: raw_audio.
             projr (newFloat32Array limit (times64 (sampling_rate raw) pauseDuration))"
  assumes "sentenceLoop limit generate voice pauseDuration sentences (samplingRate, audioChunks) s
             = (Inr (rate, chunks), s')"
  shows "\<exists>raws. answers generate voice sentences s = map Inr raws
       \<and> (\<forall>raw\<in>set raws.
             newFloat32Array limit (times64 (sampling_rate raw) pauseDuration) = Inr (G raw))
       \<and> chunks = audioChunks @ concat (map (\<lambda>raw. [audio raw, G raw]) raws)
       \<and> rate = (if raws = [] then samplingRate else sampling_rate (last raws))"
  using assms(2)
proof (induction sentences arbitrary: samplingRate audioChunks s)
  case Nil
  then show ?case by simp
next
  case (Cons sentence rest)
  from Cons.prems obtain raw s1 pause where
    gen: "generate s sentence voice = (Inr raw, s1)" and
    alloc: "newFloat32Array limit (times64 (sampling_rate raw) pauseDuration) = Inr pause" and
    loop: "sentenceLoop limit generate voice pauseDuration rest
             (sampling_rate raw, audioChunks @ [audio raw, pause]) s1
           = (Inr (rate, chunks), s')"
    by (auto split: prod.splits sum.splits)
  have G: "G raw = pause"
    by (simp add: G_def alloc)
  from Cons.IH [OF loop] obtain raws where
    a: "answers generate voice rest s1 = map Inr raws" and
    g: "\<forall>raw\<in>set raws.
          newFloat32Array limit (times64 (sampling_rate raw) pauseDuration) = Inr (G raw)" and
    c: "chunks = (audioChunks @ [audio raw, pause]) @ concat (map (\<lambda>raw. [audio raw, G raw]) raws)"
    and r: "rate = (if raws = [] then sampling_rate raw else sampling_rate (last raws))"
    by blast
  have "answers generate voice (sentence # rest) s = map Inr (raw # raws)"
    by (simp add: gen a)
  moreover have "\<forall>raw\<in>set (raw # raws).
          newFloat32Array limit (times64 (sampling_rate raw) pauseDuration) = Inr (G raw)"
    using g alloc G by simp
  moreover have "chunks = audioChunks @ concat (map (\<lambda>raw. [audio raw, G raw]) (raw # raws))"
    using c G by simp
  moreover have "rate = (if raw # raws = [] then samplingRate else sampling_rate (last (raw # raws)))"
    using r by simp
  ultimately show ?case
    by blast
qed

text \<open>
  C1. Whenever the assembly of a sentence sequence gives a buffer, every synthesis call has
  succeeded, with the results \<open>raws\<close>, and the allocation of line 122 has given a silence
  buffer \<open>gap raw\<close> after each of them: the assembled buffer is, for each sentence in order,
  its audio followed by its gap; its length is the sum of the audio lengths and of the gap
  lengths, one gap per sentence; each gap is made of zeros and its length is the binary64
  product of the rate that this call reported and of the pause, truncated; and the buffer
  ends with the gap of the last sentence. The assembly gives this buffer when the calls
  succeed, the allocations of lines 113 and 122 succeed and the total length can be
  allocated.
\<close>

theorem assemble_length:
  "(assemble limit generate voice pauseDuration sentences s = (Inr (rate, buffer), s') \<longrightarrow>
      (\<exists>raws gap.
          answers generate voice sentences s = map Inr raws
          \<and> (\<forall>raw\<in>set raws.
                pauseSamples limit (sampling_rate raw) pauseDuration = Inr (gap raw))
          \<and> length raws = length sentences
          \<and> buffer = concat (map (\<lambda>raw. audio raw @ gap raw) raws)
          \<and> length buffer = (\<Sum>raw\<leftarrow>raws. length (audio raw) + length (gap raw))
          \<and> (\<forall>raw\<in>set raws. \<forall>x. times64 (sampling_rate raw) pauseDuration = Fin x \<longrightarrow>
                gap raw = replicate (nat (js_trunc x)) (Fin 0))
          \<and> rate = (if raws = [] then 22050 else sampling_rate (last raws))
          \<and> (raws = [] \<or> suffix (gap (last raws)) buffer)))
   \<and> (answers generate voice sentences s = map Inr results \<longrightarrow>
        pauseSamples limit 22050 pauseDuration = Inr firstPause \<longrightarrow>
        (\<forall>raw\<in>set results.
            pauseSamples limit (sampling_rate raw) pauseDuration = Inr (pause raw)) \<longrightarrow>
        (\<Sum>raw\<leftarrow>results. length (audio raw) + length (pause raw)) \<le> float32Limit limit \<longrightarrow>
        assemble limit generate voice pauseDuration sentences s =
          (Inr (if results = [] then 22050 else sampling_rate (last results),
                concat (map (\<lambda>raw. audio raw @ pause raw) results)),
           engineAfter generate voice sentences s))"
proof (intro conjI impI)
  assume "assemble limit generate voice pauseDuration sentences s = (Inr (rate, buffer), s')"
  then obtain chunks where
    loop: "sentenceLoop limit generate voice pauseDuration sentences (22050, []) s
             = (Inr (rate, chunks), s')"
    and flat: "buffer = concat chunks"
    by (auto simp: assemble_def concatFloat32Arrays_concat
        split: sum.splits prod.splits if_splits)
  define gap where
    "gap = (\<lambda>raw :: raw_audio.
              projr (newFloat32Array limit (times64 (sampling_rate raw) pauseDuration)))"
  from sentenceLoop_Inr [OF loop] obtain raws where
    a: "answers generate voice sentences s = map Inr raws" and
    g: "\<forall>raw\<in>set raws.
          newFloat32Array limit (times64 (sampling_rate raw) pauseDuration) = Inr (gap raw)" and
    c: "chunks = concat (map (\<lambda>raw. [audio raw, gap raw]) raws)" and
    r: "rate = (if raws = [] then 22050 else sampling_rate (last raws))"
    unfolding gap_def by auto
  have b: "buffer = concat (map (\<lambda>raw. audio raw @ gap raw) raws)"
    by (simp add: flat c flat_chunks)
  have len: "length raws = length sentences"
    using arg_cong [OF a, of length] by simp
  have gaps: "\<forall>raw\<in>set raws. \<forall>x. times64 (sampling_rate raw) pauseDuration = Fin x \<longrightarrow>
                 gap raw = replicate (nat (js_trunc x)) (Fin 0)"
    using g newFloat32Array_Inr(3) by metis
  have last: "raws = [] \<or> suffix (gap (last raws)) buffer"
    unfolding b using trailing_gap [of raws gap] by blast
  have sum: "length buffer = (\<Sum>raw\<leftarrow>raws. length (audio raw) + length (gap raw))"
    unfolding b by (rule length_audio_and_gaps)
  have g': "\<forall>raw\<in>set raws. pauseSamples limit (sampling_rate raw) pauseDuration = Inr (gap raw)"
    using g by simp
  from a g' len b sum gaps r last
  show "\<exists>raws gap.
          answers generate voice sentences s = map Inr raws
          \<and> (\<forall>raw\<in>set raws.
                pauseSamples limit (sampling_rate raw) pauseDuration = Inr (gap raw))
          \<and> length raws = length sentences
          \<and> buffer = concat (map (\<lambda>raw. audio raw @ gap raw) raws)
          \<and> length buffer = (\<Sum>raw\<leftarrow>raws. length (audio raw) + length (gap raw))
          \<and> (\<forall>raw\<in>set raws. \<forall>x. times64 (sampling_rate raw) pauseDuration = Fin x \<longrightarrow>
                gap raw = replicate (nat (js_trunc x)) (Fin 0))
          \<and> rate = (if raws = [] then 22050 else sampling_rate (last raws))
          \<and> (raws = [] \<or> suffix (gap (last raws)) buffer)"
    by (intro exI [of _ raws] exI [of _ gap] conjI)
next
  assume "answers generate voice sentences s = map Inr results"
    and "pauseSamples limit 22050 pauseDuration = Inr firstPause"
    and "\<forall>raw\<in>set results.
            pauseSamples limit (sampling_rate raw) pauseDuration = Inr (pause raw)"
    and "(\<Sum>raw\<leftarrow>results. length (audio raw) + length (pause raw)) \<le> float32Limit limit"
  then show "assemble limit generate voice pauseDuration sentences s =
          (Inr (if results = [] then 22050 else sampling_rate (last results),
                concat (map (\<lambda>raw. audio raw @ pause raw) results)),
           engineAfter generate voice sentences s)"
    unfolding pauseSamples_def by (rule assemble_all_ok)
qed

text \<open>
  Two calls for the same sentence that report 1000 samples at 22050 Hz, then 500 samples at
  24000 Hz, with a pause of 0.5 s: the gaps have 11025 and 12000 samples.
\<close>

theorem assemble_length_witness:
  "assemble exampleLimit stubTts (js ''af_heart'') (1 / 2) [js ''Hello'', js ''Hello''] 0
     = (Inr (24000, replicate 1000 (Fin 0) @ replicate 11025 (Fin 0)
                    @ replicate 500 (Fin (1 / 2)) @ replicate 12000 (Fin 0)), 2)
   \<and> (\<exists>raws gap.
         answers stubTts (js ''af_heart'') [js ''Hello'', js ''Hello''] 0 = map Inr raws
         \<and> length raws = 2
         \<and> length (replicate 1000 (Fin 0) @ replicate 11025 (Fin 0)
                    @ replicate 500 (Fin (1 / 2)) @ replicate 12000 (Fin (0::real)))
             = (\<Sum>raw\<leftarrow>raws. length (audio raw) + length (gap raw))
         \<and> suffix (gap (last raws))
               (replicate 1000 (Fin 0) @ replicate 11025 (Fin 0)
                @ replicate 500 (Fin (1 / 2)) @ replicate 12000 (Fin 0)))"
proof -
  let ?buffer = "replicate 1000 (Fin 0) @ replicate 11025 (Fin 0)
                    @ replicate 500 (Fin (1 / 2)) @ replicate 12000 (Fin (0::real))"
  note gaps = helloTwice_gaps [folded pauseSamples_def]
  note first = pause_11025 [folded pauseSamples_def]
  have run: "assemble exampleLimit stubTts (js ''af_heart'') (1 / 2)
               [js ''Hello'', js ''Hello''] 0 = (Inr (24000, ?buffer), 2)"
    using assemble_length [THEN conjunct2, THEN mp, THEN mp, THEN mp, THEN mp,
        OF answers_helloTwice(1) first gaps helloTwice_total, of "js ''af_heart''"]
    by (simp add: stubTts_def js_def)
  from assemble_length [THEN conjunct1, THEN mp, OF run] obtain raws gap where
    "answers stubTts (js ''af_heart'') [js ''Hello'', js ''Hello''] 0 = map Inr raws"
    "length raws = length [js ''Hello'', js ''Hello'']"
    "length ?buffer = (\<Sum>raw\<leftarrow>raws. length (audio raw) + length (gap raw))"
    "raws = [] \<or> suffix (gap (last raws)) ?buffer"
    by blast
  moreover from this have "raws \<noteq> []" by auto
  ultimately have "\<exists>raws gap.
         answers stubTts (js ''af_heart'') [js ''Hello'', js ''Hello''] 0 = map Inr raws
         \<and> length raws = 2
         \<and> length ?buffer = (\<Sum>raw\<leftarrow>raws. length (audio raw) + length (gap raw))
         \<and> suffix (gap (last raws)) ?buffer"
    by (intro exI [of _ raws] exI [of _ gap]) simp
  with run show ?thesis
    by (intro conjI)
qed





section \<open>Properties of the item loop\<close>

text \<open>Only the input number 0 has a first item.\<close>

lemma getInputData_first:
  "getInputData h i = Inr (first # others) \<Longrightarrow> i = 0 \<and> inputItems h = Inr (first # others)"
  by (auto simp: getInputData_def split: if_splits option.splits)

lemma getInputData_0 [simp]: "getInputData h 0 = inputItems h"
  by (simp add: getInputData_def)

lemma getInputData_later:
  "0 < i \<Longrightarrow> getInputData h i = (case otherInput h i of Some e \<Rightarrow> Inl e | None \<Rightarrow> Inr [])"
  by (simp add: getInputData_def)

lemma loopBody_cases:
  assumes "loopBody h g v p i st = Inr st1"
  obtains (ok) b s' where "processItem h g v p i (engine st) = (Inr b, s')"
      "st1 = attach i b (st\<lparr>engine := s'\<rparr>)"
  | (failed) e s' first others where "processItem h g v p i (engine st) = (Inl e, s')"
      "continueOnFail h" "i = 0" "inputItems h = Inr (first # others)"
      "st1 = st\<lparr>items := items st @ [errorItem first e 0], engine := s'\<rparr>"
proof (cases "processItem h g v p i (engine st)")
  case (Pair r s')
  show ?thesis
  proof (cases r)
    case (Inr b)
    with Pair assms show ?thesis
      by (intro ok [of b s']) (simp_all add: loopBody_def)
  next
    case (Inl e)
    with Pair assms have c: "continueOnFail h"
      by (auto simp: loopBody_def split: if_splits)
    with Pair Inl assms obtain first others where
      inp: "getInputData h i = Inr (first # others)" and
      st1: "st1 = st\<lparr>items := items st @ [errorItem first e i], engine := s'\<rparr>"
      by (auto simp: loopBody_def split: sum.splits list.splits)
    from getInputData_first [OF inp] have "i = 0" "inputItems h = Inr (first # others)"
      by simp_all
    with Pair Inl c st1 show ?thesis
      by (intro failed [of e s' first others]) simp_all
  qed
qed

text \<open>
  When the host continues on failure and an item other than the first fails, the
  \<^verbatim>\<open>catch\<close> block throws.
\<close>

lemma loopBody_later_failure:
  assumes "0 < i" "continueOnFail h" "processItem h g v p i (engine st) = (Inl e, s')"
  shows "loopBody h g v p i st = Inl (case otherInput h i of Some e' \<Rightarrow> e' | None \<Rightarrow> TypeError)"
  using assms by (simp add: loopBody_def getInputData_later split: option.splits)

lemma length_attach [simp]: "length (items (attach i b st)) = length (items st)"
  by (simp add: attach_def Let_def)










text \<open>The result of the loop does not depend on the fuel that is left over.\<close>

lemma itemLoop_more_fuel:
  "itemLoop fuel h g v p i st = Some r \<Longrightarrow> itemLoop (fuel + k) h g v p i st = Some r"
proof (induction fuel arbitrary: i st)
  case 0
  then show ?case by simp
next
  case (Suc fuel)
  show ?case
  proof (cases "i < length (items st)")
    case False
    with Suc.prems show ?thesis by simp
  next
    case True
    show ?thesis
    proof (cases "loopBody h g v p i st")
      case (Inl e)
      with True Suc.prems show ?thesis by auto
    next
      case (Inr st1)
      with True Suc.prems have "itemLoop fuel h g v p (i + 1) st1 = Some r" by simp
      from Suc.IH [OF this] True Inr show ?thesis by simp
    qed
  qed
qed

text \<open>The loop ends: nothing is pushed from index 1 on, and at most one item at index 0.\<close>

lemma itemLoop_later_ends:
  "0 < i \<Longrightarrow> length (items st) - i < fuel \<Longrightarrow> itemLoop fuel h g v p i st \<noteq> None"
proof (induction fuel arbitrary: i st)
  case 0
  then show ?case by simp
next
  case (Suc fuel)
  show ?case
  proof (cases "i < length (items st)")
    case False
    then show ?thesis by simp
  next
    case True
    show ?thesis
    proof (cases "loopBody h g v p i st")
      case (Inl e)
      with True show ?thesis by simp
    next
      case (Inr st1)
      then have "length (items st1) = length (items st)"
        using Suc.prems(1) by (cases rule: loopBody_cases) simp_all
      with Suc.prems True have "length (items st1) - (i + 1) < fuel" by simp
      from Suc.IH [OF _ this] True Inr show ?thesis by simp
    qed
  qed
qed

lemma itemLoop_ends:
  assumes "length (items st) + 1 < fuel"
  shows "itemLoop fuel h g v p 0 st \<noteq> None"
proof -
  from assms obtain n where fuel: "fuel = Suc n" and n: "length (items st) < n"
    by (cases fuel) simp_all
  show ?thesis
  proof (cases "0 < length (items st)")
    case False
    then show ?thesis by (simp add: fuel)
  next
    case True
    show ?thesis
    proof (cases "loopBody h g v p 0 st")
      case (Inl e)
      with True show ?thesis by (simp add: fuel)
    next
      case (Inr st1)
      then have "length (items st1) \<le> length (items st) + 1"
        by (cases rule: loopBody_cases) simp_all
      with n have "length (items st1) - 1 < n" by simp
      then have "itemLoop n h g v p 1 st1 \<noteq> None"
        by (intro itemLoop_later_ends) simp_all
      with True Inr show ?thesis by (simp add: fuel)
    qed
  qed
qed


section \<open>The example runs\<close>

lemma splitHello: "splitSentences (js ''Hello'') = [js ''Hello'']"
  by (simp add: splitSentences_def js_def trim_def isWhiteSpace_def newline_def)

lemma splitFail: "splitSentences (js ''fail'') = [js ''fail'']"
  by (simp add: splitSentences_def js_def trim_def isWhiteSpace_def newline_def)

lemma splitSpace: "splitSentences (js '' '') = []"
  by (simp add: splitSentences_def js_def trim_def isWhiteSpace_def newline_def)

lemma js_Hello_not_Nil: "js ''Hello'' \<noteq> []" "js ''fail'' \<noteq> []" "js '' '' \<noteq> []"
  "js ''fail'' \<noteq> js ''Hello''" "js ''Hello'' \<noteq> js ''fail''"
  by (simp_all add: js_def)

lemma float32Limit_example: "float32Limit exampleLimit = 16777216"
  by (simp add: float32Limit_def exampleLimit_def)

lemma pause_negative:
  "newFloat32Array exampleLimit (times64 22050 (- (1 / 32768))) = Inr []"
  by (simp add: times64_22050_negative newFloat32Array_nonpos)


lemma processItem_Hello:
  assumes "param_text h i = js ''Hello''" "toBase64Wav h = stubEncoder"
    and "maxLength h = exampleLimit"
  shows "processItem h stubTts v (1 / 2) i calls = (Inr stubAudio, calls + 1)"
proof -
  have "\<exists>wav. buildWav exampleLimit stubTts v (1 / 2) (js ''Hello'') calls = (Inr wav, calls + 1)"
    by (cases "even calls")
      (simp_all add: buildWav_def splitHello assemble_def pause_11025 pause_12000 stubTts_def
        js_Hello_not_Nil concatFloat32Arrays_concat float32Limit_example)
  then show ?thesis
    using assms by (auto simp: processItem_def js_Hello_not_Nil stubEncoder_def stubAudio_def)
qed

lemma processItem_fail:
  assumes "param_text h i = js ''fail''" "maxLength h = exampleLimit"
  shows "processItem h stubTts v (1 / 2) i calls = (Inl (External 7 None), calls + 1)"
  using assms
  by (simp add: processItem_def js_Hello_not_Nil buildWav_def splitFail assemble_def
      pause_11025 stubTts_def)

lemma processItem_firstFails:
  "processItem firstFailsHost stubTts v (1 / 2) i calls =
     (if i = 0 then (Inl (External 7 None), calls + 1) else (Inr stubAudio, calls + 1))"
proof (cases "i = 0")
  case True
  then show ?thesis
    by (simp add: processItem_fail firstFailsHost_def)
next
  case False
  then have "processItem firstFailsHost stubTts v (1 / 2) i calls = (Inr stubAudio, calls + 1)"
    by (intro processItem_Hello) (simp_all add: firstFailsHost_def)
  with False show ?thesis by simp
qed

lemma processItem_secondFails:
  "processItem secondFailsHost stubTts v (1 / 2) i calls =
     (if i = 1 then (Inl (External 7 None), calls + 1) else (Inr stubAudio, calls + 1))"
proof (cases "i = 1")
  case True
  then show ?thesis
    by (simp add: processItem_fail secondFailsHost_def firstFailsHost_def)
next
  case False
  then have "processItem secondFailsHost stubTts v (1 / 2) i calls = (Inr stubAudio, calls + 1)"
    by (intro processItem_Hello) (simp_all add: secondFailsHost_def firstFailsHost_def)
  with False show ?thesis by simp
qed

lemma firstFailsHost_fields:
  "inputItems firstFailsHost = Inr [plainItem 0, plainItem 1, plainItem 2]"
  "continueOnFail firstFailsHost" "from_pretrained firstFailsHost = Inr (stubTts, 0)"
  "param_voice firstFailsHost 0 = js ''af_heart''" "param_pauseDuration firstFailsHost 0 = 1 / 2"
  "inputHeap firstFailsHost = (\<lambda>a. Map.empty)"
  by (simp_all add: firstFailsHost_def)

lemma secondFailsHost_fields:
  "inputItems secondFailsHost = Inr [plainItem 0, plainItem 1, plainItem 2]"
  "continueOnFail secondFailsHost" "from_pretrained secondFailsHost = Inr (stubTts, 0)"
  "param_voice secondFailsHost 0 = js ''af_heart''" "param_pauseDuration secondFailsHost 0 = 1 / 2"
  "getInputData secondFailsHost (Suc 0) = Inr []"
  by (simp_all add: secondFailsHost_def firstFailsHost_def getInputData_def)

lemma execute_firstFails:
  "map_option (map_sum id fst) (execute 5 firstFailsHost) =
     Some (Inr [[plainItem 0,
                 (plainItem 1)\<lparr>binary := Some [(''audio'', stubAudio)]\<rparr>,
                 (plainItem 2)\<lparr>binary := Some [(''audio'', stubAudio)]\<rparr>,
                 \<lparr>json = 0, binary = Some [(''audio'', stubAudio)],
                  error = Some (External 7 None), pairedItem = Some 0\<rparr>]])"
  by (simp add: execute_def firstFailsHost_fields eval_nat_numeral loopBody_def
      processItem_firstFails attach_def errorItem_def plainItem_def Let_def)


lemma visited_firstFails:
  "visited 5 firstFailsHost stubTts (js ''af_heart'') (1 / 2) 0
     \<lparr>items = [plainItem 0, plainItem 1, plainItem 2], heap = (\<lambda>a. Map.empty), engine = 0\<rparr>
   = [0, 1, 2, 3]"
  by (simp add: firstFailsHost_fields eval_nat_numeral loopBody_def
      processItem_firstFails attach_def errorItem_def plainItem_def Let_def)


lemma blankHost_fields:
  "inputItems blankHost = Inr [plainItem 0]"
  "continueOnFail blankHost" "from_pretrained blankHost = Inr (stubTts, 0)"
  "param_voice blankHost 0 = js ''af_heart''" "param_pauseDuration blankHost 0 = 1 / 2"
  "inputHeap blankHost = (\<lambda>a. Map.empty)"
  "getInputData blankHost (Suc 0) = Inr []" "param_text blankHost i = []"
  by (simp_all add: blankHost_def getInputData_def)

lemma processItem_empty:
  "param_text h i = [] \<Longrightarrow> processItem h g v p i s = (Inl (noText i), s)"
  by (simp add: processItem_def noText_def)

lemma execute_blank:
  "execute 3 blankHost = Some (Inl TypeError)"
  "visited 3 blankHost stubTts (js ''af_heart'') (1 / 2) 0 oneItem = [0, 1]"
  by (simp_all add: execute_def blankHost_fields eval_nat_numeral loopBody_def
      processItem_empty errorItem_def plainItem_def oneItem_def Let_def)

lemma processItem_space:
  "processItem spaceHost stubTts v (1 / 2) i calls = (Inr stubAudio, calls)"
  by (simp add: processItem_def spaceHost_def js_Hello_not_Nil buildWav_def splitSpace
      assemble_empty [OF pause_11025] float32ToInt16_map stubEncoder_def stubAudio_def)

lemma execute_space:
  "map_option (map_sum id fst) (execute 2 spaceHost) =
     Some (Inr [[(plainItem 0)\<lparr>binary := Some [(''audio'', stubAudio)]\<rparr>]])"
proof -
  have h: "inputItems spaceHost = Inr [plainItem 0]"
    "from_pretrained spaceHost = Inr (stubTts, 0)"
    "param_voice spaceHost 0 = js ''af_heart''" "param_pauseDuration spaceHost 0 = 1 / 2"
    by (simp_all add: spaceHost_def)
  show ?thesis
    by (simp add: execute_def h eval_nat_numeral loopBody_def processItem_space
        attach_def plainItem_def Let_def)
qed

lemma processItem_negativePause:
  "processItem negativePauseHost stubTts v (- (1 / 32768)) i 0 = (Inr stubAudio, 1)"
proof -
  have "\<exists>wav. buildWav exampleLimit stubTts v (- (1 / 32768)) (js ''Hello'') 0 = (Inr wav, 1)"
    by (simp add: buildWav_def splitHello assemble_def pause_negative stubTts_def
        js_Hello_not_Nil concatFloat32Arrays_concat float32Limit_example)
  then show ?thesis
    by (auto simp: processItem_def negativePauseHost_def js_Hello_not_Nil stubEncoder_def
        stubAudio_def)
qed

lemma execute_negativePause:
  "map_option (map_sum id fst) (execute 2 negativePauseHost) =
     Some (Inr [[(plainItem 0)\<lparr>binary := Some [(''audio'', stubAudio)]\<rparr>]])"
proof -
  have h: "inputItems negativePauseHost = Inr [plainItem 0]"
    "from_pretrained negativePauseHost = Inr (stubTts, 0)"
    "param_voice negativePauseHost 0 = js ''af_heart''"
    "param_pauseDuration negativePauseHost 0 = - (1 / 32768)"
    by (simp_all add: negativePauseHost_def)
  show ?thesis
    by (simp add: execute_def h eval_nat_numeral loopBody_def processItem_negativePause
        attach_def plainItem_def Let_def)
qed







section \<open>Properties of the run\<close>

text \<open>
  C6, as the code has it. An item whose text is the empty string raises the error
  \<open>No text provided\<close>, which carries the index of the item, before the engine is called: the
  run stops with it when the host does not continue on failure, and an iteration that goes on
  leaves the heap, the engine and every item as they are and pushes one error item, which has
  no attachment. A text that is not empty but holds white space only passes the check of line
  101: it has no sentence, and when the allocation of line 113 succeeds its item is given the
  attachment of a WAV file of rate 22050 without samples.
\<close>

theorem empty_text_raises:
  "(param_text h itemIndex = [] \<longrightarrow>
      processItem h generate voice pauseDuration itemIndex s = (Inl (noText itemIndex), s)
      \<and> (\<not> continueOnFail h \<longrightarrow>
           loopBody h generate voice pauseDuration itemIndex st = Inl (noText itemIndex))
      \<and> (loopBody h generate voice pauseDuration itemIndex st = Inr st' \<longrightarrow>
           heap st' = heap st \<and> engine st' = engine st
           \<and> (\<exists>first. items st' = items st @ [errorItem first (noText itemIndex) itemIndex])))
   \<and> (param_text h itemIndex \<noteq> [] \<longrightarrow> splitSentences (param_text h itemIndex) = [] \<longrightarrow>
        pauseSamples (maxLength h) 22050 pauseDuration = Inr firstPause \<longrightarrow>
        processItem h generate voice pauseDuration itemIndex s =
          (case toBase64Wav h
                  \<lparr>numChannels = 1, sampleRate = 22050, bitDepth = ''16'', samples = []\<rparr> of
             Inl e \<Rightarrow> (Inl e, s)
           | Inr b64 \<Rightarrow>
               (Inr \<lparr>data = b64, mimeType = ''audio/wav'', fileName = ''result.wav''\<rparr>, s)))"
proof (intro conjI impI)
  assume empty: "param_text h itemIndex = []"
  then show p: "processItem h generate voice pauseDuration itemIndex s = (Inl (noText itemIndex), s)"
    by (rule processItem_empty)
  have p': "processItem h generate voice pauseDuration itemIndex (engine st)
              = (Inl (noText itemIndex), engine st)"
    using empty by (rule processItem_empty)
  {
    assume "\<not> continueOnFail h"
    with p' show "loopBody h generate voice pauseDuration itemIndex st = Inl (noText itemIndex)"
      by (simp add: loopBody_def noText_def)
  }
  {
    assume body: "loopBody h generate voice pauseDuration itemIndex st = Inr st'"
    from body show "heap st' = heap st"
      using p' by (cases rule: loopBody_cases) simp_all
    from body show "engine st' = engine st"
      using p' by (cases rule: loopBody_cases) simp_all
    from body show "\<exists>first. items st' = items st @ [errorItem first (noText itemIndex) itemIndex]"
      using p' by (cases rule: loopBody_cases) auto
  }
next
  assume "param_text h itemIndex \<noteq> []" "splitSentences (param_text h itemIndex) = []"
    "pauseSamples (maxLength h) 22050 pauseDuration = Inr firstPause"
  then show "processItem h generate voice pauseDuration itemIndex s =
          (case toBase64Wav h
                  \<lparr>numChannels = 1, sampleRate = 22050, bitDepth = ''16'', samples = []\<rparr> of
             Inl e \<Rightarrow> (Inl e, s)
           | Inr b64 \<Rightarrow>
               (Inr \<lparr>data = b64, mimeType = ''audio/wav'', fileName = ''result.wav''\<rparr>, s))"
    by (simp add: processItem_def buildWav_def assemble_empty float32ToInt16_map)
qed

theorem empty_text_raises_witness:
  "param_text blankHost 0 = []
   \<and> processItem blankHost stubTts (js ''af_heart'') (1 / 2) 0 0 = (Inl (noText 0), 0)
   \<and> loopBody (blankHost\<lparr>continueOnFail := False\<rparr>) stubTts (js ''af_heart'') (1 / 2) 0 oneItem
       = Inl (noText 0)
   \<and> loopBody blankHost stubTts (js ''af_heart'') (1 / 2) 0 oneItem
       = Inr (oneItem\<lparr>items := [plainItem 0, errorItem (plainItem 0) (noText 0) 0]\<rparr>)
   \<and> binary (errorItem (plainItem 0) (noText 0) 0) = None
   \<and> param_text spaceHost 0 = js '' ''
   \<and> processItem spaceHost stubTts (js ''af_heart'') (1 / 2) 0 0 = (Inr stubAudio, 0)"
proof -
  have e: "param_text blankHost 0 = []" "param_text (blankHost\<lparr>continueOnFail := False\<rparr>) 0 = []"
    "\<not> continueOnFail (blankHost\<lparr>continueOnFail := False\<rparr>)"
    by (simp_all add: blankHost_def)
  note t1 = empty_text_raises [where h = blankHost and itemIndex = 0 and generate = stubTts
      and voice = "js ''af_heart''" and pauseDuration = "1 / 2" and s = 0]
  note t2 = empty_text_raises [where h = "blankHost\<lparr>continueOnFail := False\<rparr>"
      and itemIndex = 0 and generate = stubTts
      and voice = "js ''af_heart''" and pauseDuration = "1 / 2" and st = oneItem]
  note t3 = empty_text_raises [where h = spaceHost and itemIndex = 0 and generate = stubTts
      and voice = "js ''af_heart''" and pauseDuration = "1 / 2" and s = 0
      and firstPause = "replicate 11025 (Fin 0)"]
  have p: "processItem blankHost stubTts (js ''af_heart'') (1 / 2) 0 0 = (Inl (noText 0), 0)"
    using t1 e by blast
  have l2: "loopBody (blankHost\<lparr>continueOnFail := False\<rparr>) stubTts (js ''af_heart'') (1 / 2) 0
              oneItem = Inl (noText 0)"
    using t2 e by blast
  have l1: "loopBody blankHost stubTts (js ''af_heart'') (1 / 2) 0 oneItem
       = Inr (oneItem\<lparr>items := [plainItem 0, errorItem (plainItem 0) (noText 0) 0]\<rparr>)"
    by (simp add: loopBody_def blankHost_fields processItem_empty oneItem_def)
  have s: "param_text spaceHost 0 = js '' ''" "toBase64Wav spaceHost = stubEncoder"
    "maxLength spaceHost = exampleLimit"
    by (simp_all add: spaceHost_def)
  have "processItem spaceHost stubTts (js ''af_heart'') (1 / 2) 0 0 = (Inr stubAudio, 0)"
    using t3 s pause_11025
    by (simp add: js_Hello_not_Nil splitSpace stubEncoder_def stubAudio_def)
  with e p l1 l2 s show ?thesis
    by (simp add: errorItem_def)
qed

text \<open>
  C6 as stated fails: the text made of one space is white space only, it raises no error
  and its item gains the audio attachment.
\<close>

theorem whitespace_text_not_rejected:
  "param_text spaceHost 0 = js '' ''
   \<and> list_all isWhiteSpace (js '' '')
   \<and> splitSentences (js '' '') = []
   \<and> map_option (map_sum id fst) (execute 2 spaceHost) =
       Some (Inr [[(plainItem 0)\<lparr>binary := Some [(''audio'', stubAudio)]\<rparr>]])"
  by (simp add: execute_space splitSpace) (simp add: spaceHost_def js_def isWhiteSpace_def)




text \<open>
  C8, as the code has it. No validation rejects a negative pause: it reaches the allocation
  of the silence buffer. There a binary64 product of rate and pause at or below \<open>- 1\<close> is a
  RangeError, which fails the item inside the \<^verbatim>\<open>try\<close> block (and ends a run that does not
  continue on failure with that error, wrapped with the index 0), and a product between
  \<open>- 1\<close> and 0 gives an empty silence buffer.
\<close>

theorem negative_pause_reaches_allocation:
  "(pauseDuration < 0 \<longrightarrow> 0 \<le> samplingRate \<longrightarrow>
       pauseSamples limit samplingRate pauseDuration =
         (case times64 samplingRate pauseDuration of
            Fin x \<Rightarrow> if x \<le> - 1 then Inl RangeError else Inr []
          | _ \<Rightarrow> Inl RangeError))
   \<and> (22050 * pauseDuration \<le> - 1 \<longrightarrow> param_text h itemIndex \<noteq> [] \<longrightarrow>
       processItem h generate voice pauseDuration itemIndex s = (Inl RangeError, s))
   \<and> (22050 * param_pauseDuration h 0 \<le> - 1 \<longrightarrow> inputItems h = Inr (first # others) \<longrightarrow>
       from_pretrained h = Inr (generate, s0) \<longrightarrow> param_text h 0 \<noteq> [] \<longrightarrow> \<not> continueOnFail h \<longrightarrow>
       execute (Suc fuel) h = Some (Inl (NodeOperationError (Inr RangeError) (Some 0))))"
proof (intro conjI impI)
  assume neg: "pauseDuration < 0" and rate: "0 \<le> samplingRate"
  then have "samplingRate * pauseDuration \<le> 0"
    by (simp add: mult_nonneg_nonpos)
  from fl64_nonpos [OF this] consider
    (inf) "times64 samplingRate pauseDuration = NegInf"
    | (fin) y where "y \<le> 0" "times64 samplingRate pauseDuration = Fin y"
    unfolding times64_def by blast
  then show "pauseSamples limit samplingRate pauseDuration =
         (case times64 samplingRate pauseDuration of
            Fin x \<Rightarrow> if x \<le> - 1 then Inl RangeError else Inr []
          | _ \<Rightarrow> Inl RangeError)"
  proof cases
    case inf
    then show ?thesis by (simp add: newFloat32Array_def)
  next
    case (fin y)
    then show ?thesis by (simp add: newFloat32Array_nonpos)
  qed
next
  assume "22050 * pauseDuration \<le> - 1" "param_text h itemIndex \<noteq> []"
  then show "processItem h generate voice pauseDuration itemIndex s = (Inl RangeError, s)"
    by (simp add: processItem_def buildWav_def assemble_range_error)
next
  assume a: "22050 * param_pauseDuration h 0 \<le> - 1" "inputItems h = Inr (first # others)"
    "from_pretrained h = Inr (generate, s0)" "param_text h 0 \<noteq> []" "\<not> continueOnFail h"
  then have "processItem h generate (param_voice h 0) (param_pauseDuration h 0) 0 s0
               = (Inl RangeError, s0)"
    by (simp add: processItem_def buildWav_def assemble_range_error)
  with a show "execute (Suc fuel) h = Some (Inl (NodeOperationError (Inr RangeError) (Some 0)))"
    by (simp add: execute_def loopBody_def)
qed

text \<open>
  At 24000 Hz and the binary64 number nearest to \<open>- 1 / 24000\<close> the exact product is above
  \<open>- 1\<close>, the binary64 product is \<open>- 1\<close>, and the allocation is a RangeError.
\<close>

theorem negative_pause_reaches_allocation_witness:
  "pauseSamples exampleLimit 22050 (- (1 / 32768)) = Inr []
   \<and> pauseSamples exampleLimit 22050 (- 1) = Inl RangeError
   \<and> pauseSamples exampleLimit 24000 nearest_minus_1_24000 = Inl RangeError
   \<and> - 1 < 24000 * nearest_minus_1_24000
   \<and> processItem negativePauseHost stubTts (js ''af_heart'') (- 1) 0 0 = (Inl RangeError, 0)
   \<and> execute 1 (negativePauseHost\<lparr>param_pauseDuration := (\<lambda>itemIndex. - 1)\<rparr>) =
       Some (Inl (NodeOperationError (Inr RangeError) (Some 0)))"
proof -
  have 1: "pauseSamples exampleLimit 22050 (- (1 / 32768)) = Inr []"
    using negative_pause_reaches_allocation [where pauseDuration = "- (1 / 32768)"
        and samplingRate = 22050 and limit = exampleLimit, THEN conjunct1]
    by (simp add: times64_22050_negative)
  have 2: "pauseSamples exampleLimit 22050 (- 1) = Inl RangeError"
    using negative_pause_reaches_allocation [where pauseDuration = "- 1"
        and samplingRate = 22050 and limit = exampleLimit, THEN conjunct1]
    by (simp add: times64_22050_minus_1)
  have n: "nearest_minus_1_24000 < 0" "- 1 < 24000 * nearest_minus_1_24000"
    by (simp_all add: nearest_minus_1_24000_def)
  have 3: "pauseSamples exampleLimit 24000 nearest_minus_1_24000 = Inl RangeError"
    using negative_pause_reaches_allocation [where pauseDuration = nearest_minus_1_24000
        and samplingRate = 24000 and limit = exampleLimit, THEN conjunct1] n(1)
    by (simp add: times64_24000_nearest_minus_1_24000)
  have 4: "processItem negativePauseHost stubTts (js ''af_heart'') (- 1) 0 0 = (Inl RangeError, 0)"
    using negative_pause_reaches_allocation [where pauseDuration = "- 1"
        and h = negativePauseHost and itemIndex = 0 and generate = stubTts
        and voice = "js ''af_heart''" and s = 0, THEN conjunct2, THEN conjunct1]
    by (simp add: negativePauseHost_def js_Hello_not_Nil)
  have 5: "execute 1 (negativePauseHost\<lparr>param_pauseDuration := (\<lambda>itemIndex. - 1)\<rparr>) =
       Some (Inl (NodeOperationError (Inr RangeError) (Some 0)))"
    using negative_pause_reaches_allocation [
        where h = "negativePauseHost\<lparr>param_pauseDuration := (\<lambda>itemIndex. - 1)\<rparr>"
        and first = "plainItem 0" and others = "[]" and generate = stubTts and ?s0.0 = 0
        and fuel = 0, THEN conjunct2, THEN conjunct2]
    by (simp add: negativePauseHost_def js_Hello_not_Nil)
  from 1 2 3 n(2) 4 5 show ?thesis by blast
qed

text \<open>
  C8 as stated fails: with a pause of \<open>- 1 / 32768\<close> seconds the silence buffer is
  allocated from a negative duration, it is empty, and the run ends with the audio attached.
\<close>

theorem negative_pause_accepted:
  "param_pauseDuration negativePauseHost 0 < 0
   \<and> pauseSamples (maxLength negativePauseHost) 22050
         (param_pauseDuration negativePauseHost 0) = Inr []
   \<and> map_option (map_sum id fst) (execute 2 negativePauseHost) =
       Some (Inr [[(plainItem 0)\<lparr>binary := Some [(''audio'', stubAudio)]\<rparr>]])"
proof -
  have h: "param_pauseDuration negativePauseHost 0 = - (1 / 32768)"
    "maxLength negativePauseHost = exampleLimit"
    by (simp_all add: negativePauseHost_def)
  show ?thesis
    by (simp add: h pause_negative execute_negativePause)
qed






section \<open>Further properties of the run\<close>

text \<open>
  \<^verbatim>\<open>concatFloat32Arrays\<close> (lines 13-22) returns the arrays one after the other, in order,
  when their total length can be allocated, and throws the RangeError of line 15
  otherwise; no \<^verbatim>\<open>set\<close> of line 18 throws.
\<close>

theorem concatFloat32Arrays_result:
  "concatFloat32Arrays limit arrays =
     (if length (concat arrays) \<le> float32Limit limit then Inr (concat arrays)
      else Inl RangeError)"
  by (rule concatFloat32Arrays_concat)

text \<open>
  \<^verbatim>\<open>float32ToInt16\<close> (lines 25-34) returns one integer per sample.
\<close>

theorem float32ToInt16_length:
  "length (float32ToInt16 buffer) = length buffer"
  by (simp add: float32ToInt16_map)

text \<open>
  Lines 160-164: the value thrown when the host does not continue on failure carries the
  index of the item, unless \<^verbatim>\<open>null\<close> or \<^verbatim>\<open>undefined\<close> was caught: then it is the
  TypeError of line 160.
\<close>

theorem rethrow_carries_itemIndex:
  "rethrow Nullish itemIndex = TypeError
   \<and> contextItemIndex (rethrow e itemIndex) = (if e = Nullish then None else Some itemIndex)"
  by (cases "(e, itemIndex)" rule: rethrow.cases) simp_all

text \<open>
  Lines 86-94: when the model cannot be loaded the run throws before the item loop starts,
  with no fuel used.
\<close>

theorem model_load_failure_is_fatal:
  "inputItems h = Inr its \<Longrightarrow> from_pretrained h = Inl e \<Longrightarrow>
   execute fuel h = Some (Inl (NodeOperationError (Inl ''Failed to load TTS model'') None))"
  by (simp add: execute_def)

theorem model_load_failure_is_fatal_witness:
  "execute 0 (firstFailsHost\<lparr>from_pretrained := Inl (External 3 None)\<rparr>)
     = Some (Inl (NodeOperationError (Inl ''Failed to load TTS model'') None))"
  using model_load_failure_is_fatal [of "firstFailsHost\<lparr>from_pretrained := Inl (External 3 None)\<rparr>"
      "[plainItem 0, plainItem 1, plainItem 2]" "External 3 None" 0]
  by (simp add: firstFailsHost_def)

text \<open>
  A run that has ended keeps its result when it is given more fuel.
\<close>

theorem run_result_independent_of_fuel:
  "execute fuel h = Some r \<Longrightarrow> execute (fuel + k) h = Some r"
proof -
  assume run: "execute fuel h = Some r"
  show ?thesis
  proof (cases "inputItems h")
    case (Inl e)
    with run show ?thesis by (simp add: execute_def)
  next
    case inp: (Inr its)
    show ?thesis
    proof (cases "from_pretrained h")
      case (Inl e)
      with run inp show ?thesis by (simp add: execute_def)
    next
      case (Inr loaded)
      obtain generate s0 where loaded: "loaded = (generate, s0)"
        by (cases loaded)
      let ?loop = "\<lambda>n. itemLoop n h generate (param_voice h 0) (param_pauseDuration h 0) 0
                       \<lparr>items = its, heap = inputHeap h, engine = s0\<rparr>"
      from run inp Inr loaded obtain r' where r': "?loop fuel = Some r'"
        by (auto simp: execute_def Let_def split: option.splits)
      from itemLoop_more_fuel [OF this] have "?loop (fuel + k) = Some r'" .
      with run r' inp Inr loaded show ?thesis
        by (simp add: execute_def Let_def)
    qed
  qed
qed

theorem run_result_independent_of_fuel_witness:
  "map_option (map_sum id fst) (execute (5 + 7) firstFailsHost)
     = map_option (map_sum id fst) (execute 5 firstFailsHost)
   \<and> execute 5 firstFailsHost \<noteq> None"
proof -
  obtain r where r: "execute 5 firstFailsHost = Some r"
    using execute_firstFails by (cases "execute 5 firstFailsHost") simp_all
  from run_result_independent_of_fuel [OF r, of 7] r show ?thesis
    by simp
qed

text \<open>
  Line 97: the run ends, with a result or with a thrown value, within two tests of the loop
  condition more than there are input items.
\<close>

theorem run_ends:
  "inputItems h = Inr its \<Longrightarrow> execute (length its + 2) h \<noteq> None"
proof -
  assume inp: "inputItems h = Inr its"
  show ?thesis
  proof (cases "from_pretrained h")
    case (Inl e)
    with inp show ?thesis by (simp add: execute_def)
  next
    case (Inr loaded)
    obtain generate s0 where loaded: "loaded = (generate, s0)"
      by (cases loaded)
    have "itemLoop (length its + 2) h generate (param_voice h 0)
            (param_pauseDuration h 0) 0 \<lparr>items = its, heap = inputHeap h, engine = s0\<rparr> \<noteq> None"
      by (intro itemLoop_ends) simp
    with inp Inr loaded show ?thesis
      by (auto simp: execute_def Let_def split: sum.splits simp del: itemLoop.simps)
  qed
qed

theorem run_ends_witness:
  "execute (length [plainItem 0, plainItem 1, plainItem 2] + 2) firstFailsHost \<noteq> None
   \<and> execute (length [plainItem 0] + 2) blankHost = Some (Inl TypeError)"
proof -
  from run_ends [OF firstFailsHost_fields(1)]
  have "execute (length [plainItem 0, plainItem 1, plainItem 2] + 2) firstFailsHost \<noteq> None" .
  moreover have "length [plainItem 0] + 2 = 3"
    by simp
  then have "execute (length [plainItem 0] + 2) blankHost = Some (Inl TypeError)"
    using execute_blank(1) by (simp only:)
  ultimately show ?thesis by blast
qed

text \<open>
  Line 155: when the host continues on failure and an item other than the first fails, the
  \<^verbatim>\<open>catch\<close> block itself throws, a TypeError unless the host throws on that input number,
  and the run ends with that value.
\<close>

theorem later_failure_throws:
  "0 < itemIndex \<Longrightarrow> continueOnFail h \<Longrightarrow> itemIndex < length (items st) \<Longrightarrow>
   processItem h generate voice pauseDuration itemIndex (engine st) = (Inl e, s') \<Longrightarrow>
   itemLoop (Suc fuel) h generate voice pauseDuration itemIndex st =
     Some (Inl (case otherInput h itemIndex of Some e' \<Rightarrow> e' | None \<Rightarrow> TypeError))"
  by (simp add: loopBody_later_failure)

theorem later_failure_throws_witness:
  "itemLoop 1 secondFailsHost stubTts (js ''af_heart'') (1 / 2) 1
     \<lparr>items = [plainItem 0, plainItem 1, plainItem 2], heap = (\<lambda>a. Map.empty), engine = 1\<rparr>
   = Some (Inl TypeError)"
  using later_failure_throws [of 1 secondFailsHost
      "\<lparr>items = [plainItem 0, plainItem 1, plainItem 2], heap = (\<lambda>a. Map.empty), engine = 1\<rparr>"
      stubTts "js ''af_heart''" "1 / 2" "External 7 None" 2 0]
  by (simp add: secondFailsHost_fields processItem_secondFails)
     (simp add: secondFailsHost_def firstFailsHost_def)

end
